theory Spec2Isabelle
  imports Main
begin

section \<open>JavaScript values\<close>

text \<open>
  A JavaScript number is a double: NaN, one of the two infinities, or a finite value.
  The numbers this program handles are epoch seconds and milliseconds: of the finite
  doubles the model keeps the integers, \<open>Fin n\<close> standing for the double of value \<open>n\<close>.
  Fractions are outside the model.
\<close>

datatype jsnum = NaN | Fin int | PosInf | NegInf

text \<open>The number of binary digits of a natural number.\<close>

fun bitLength :: "nat \<Rightarrow> nat" where
  "bitLength n = (if n = 0 then 0 else Suc (bitLength (n div 2)))"

declare bitLength.simps [simp del]

text \<open>
  The double nearest to an integer, which is what an arithmetic operation returns when
  its exact result is that integer: the magnitude keeps its 53 leading binary digits,
  rounded to nearest with ties to the even significand, and a magnitude that rounds to
  \<open>2 ^ 1024\<close> or more overflows to the infinity of its sign.
\<close>

definition roundDouble :: "int \<Rightarrow> jsnum" where
  "roundDouble m =
     (let a = nat \<bar>m\<bar>;
          sh = bitLength a - 53;
          q = a div 2 ^ sh;
          r = a mod 2 ^ sh;
          v = (if 2 ^ sh < 2 * r \<or> (2 * r = 2 ^ sh \<and> odd q) then q + 1 else q) * 2 ^ sh
      in if 2 ^ 1024 \<le> v then (if m < 0 then NegInf else PosInf)
         else Fin (if m < 0 then - int v else int v))"

text \<open>
  A value of the language, as far as the program meets one: the tree that the XML parser
  returns (strings, numbers, booleans, arrays, objects with their keys in insertion
  order), the \<open>Date\<close> a caller may pass as lower bound (its time value), and the
  built-in method that a property read on a string can return (\<open>"x".link\<close> is
  \<open>String.prototype.link\<close>), named by its name.
\<close>

datatype jsval =
    JUndef
  | JNull
  | JBool bool
  | JNum jsnum
  | JStr string
  | JArr "jsval list"
  | JObj "(string \<times> jsval) list"
  | JDate jsnum
  | JFunc string

text \<open>\<open>Number.isFinite\<close>, and the comparisons \<open><\<close> and \<open>>=\<close>, false on NaN.\<close>

fun isFinite :: "jsnum \<Rightarrow> bool" where
  "isFinite (Fin _) = True"
| "isFinite _ = False"

fun jsLt :: "jsnum \<Rightarrow> jsnum \<Rightarrow> bool" where
  "jsLt (Fin a) (Fin b) = (a < b)"
| "jsLt NegInf (Fin b) = True"
| "jsLt NegInf PosInf = True"
| "jsLt (Fin a) PosInf = True"
| "jsLt _ _ = False"

fun jsGe :: "jsnum \<Rightarrow> jsnum \<Rightarrow> bool" where
  "jsGe (Fin a) (Fin b) = (a \<ge> b)"
| "jsGe (Fin a) NegInf = True"
| "jsGe PosInf (Fin b) = True"
| "jsGe PosInf PosInf = True"
| "jsGe PosInf NegInf = True"
| "jsGe NegInf NegInf = True"
| "jsGe _ _ = False"

text \<open>\<open>v * 1000\<close>: the product is rounded to a double.\<close>

fun timesThousand :: "jsnum \<Rightarrow> jsnum" where
  "timesThousand (Fin n) = roundDouble (n * 1000)"
| "timesThousand v = v"

text \<open>Truthiness: what \<open>!v\<close>, \<open>||\<close> and \<open>&&\<close> test.\<close>

fun truthy :: "jsval \<Rightarrow> bool" where
  "truthy JUndef = False"
| "truthy JNull = False"
| "truthy (JBool b) = b"
| "truthy (JNum NaN) = False"
| "truthy (JNum (Fin n)) = (n \<noteq> 0)"
| "truthy (JNum PosInf) = True"
| "truthy (JNum NegInf) = True"
| "truthy (JStr s) = (s \<noteq> [])"
| "truthy (JArr _) = True"
| "truthy (JObj _) = True"
| "truthy (JDate _) = True"
| "truthy (JFunc _) = True"

text \<open>\<open>v == null\<close>: null or undefined.\<close>

fun nullish :: "jsval \<Rightarrow> bool" where
  "nullish JUndef = True"
| "nullish JNull = True"
| "nullish _ = False"

text \<open>\<open>a || b\<close>, \<open>a && b\<close> and \<open>a ?? b\<close>, which return one of their operands.\<close>

definition jsOr :: "jsval \<Rightarrow> jsval \<Rightarrow> jsval" where
  "jsOr a b = (if truthy a then a else b)"

definition jsAnd :: "jsval \<Rightarrow> jsval \<Rightarrow> jsval" where
  "jsAnd a b = (if truthy a then b else a)"

definition jsCoalesce :: "jsval \<Rightarrow> jsval \<Rightarrow> jsval" where
  "jsCoalesce a b = (if nullish a then b else a)"

text \<open>
  The property read \<open>v?.k\<close>. An object gives the value stored under the key, undefined
  when there is none. Of the keys this program reads, the prototypes of the other values
  define one: \<open>link\<close>, on strings. Null and undefined give undefined (the optional
  chain); the program's reads without \<open>?.\<close> are all behind a test that the value is
  truthy.
\<close>

fun getProp :: "jsval \<Rightarrow> string \<Rightarrow> jsval" where
  "getProp (JObj kvs) k = (case map_of kvs k of Some v \<Rightarrow> v | None \<Rightarrow> JUndef)"
| "getProp (JStr s) k = (if k = ''link'' then JFunc ''link'' else JUndef)"
| "getProp _ k = JUndef"

fun isArray :: "jsval \<Rightarrow> bool" where
  "isArray (JArr _) = True"
| "isArray _ = False"

text \<open>\<open>Array.isArray(x) ? x : [x]\<close>\<close>

fun asArray :: "jsval \<Rightarrow> jsval list" where
  "asArray (JArr xs) = xs"
| "asArray v = [v]"

text \<open>\<open>x ? (Array.isArray(x) ? x : [x]) : []\<close>\<close>

definition asArrayOrEmpty :: "jsval \<Rightarrow> jsval list" where
  "asArrayOrEmpty x = (if truthy x then asArray x else [])"

section \<open>Strings\<close>

text \<open>
  A string is its sequence of code units, here those below 256. \<open>trim\<close> removes the
  white space and line terminators at both ends; \<open>\d\<close> is an ASCII digit.
\<close>

definition isSpace :: "char \<Rightarrow> bool" where
  "isSpace c = (c \<in> set [CHR 0x09, CHR 0x0A, CHR 0x0B, CHR 0x0C, CHR 0x0D, CHR 0x20, CHR 0xA0])"

definition trim :: "string \<Rightarrow> string" where
  "trim s = rev (dropWhile isSpace (rev (dropWhile isSpace s)))"

definition isDigit :: "char \<Rightarrow> bool" where
  "isDigit c = (c \<in> set ''0123456789'')"

definition isLowerAZ :: "char \<Rightarrow> bool" where
  "isLowerAZ c = (c \<in> set ''abcdefghijklmnopqrstuvwxyz'')"

definition isUpperAZ :: "char \<Rightarrow> bool" where
  "isUpperAZ c = (c \<in> set ''ABCDEFGHIJKLMNOPQRSTUVWXYZ'')"

text \<open>
  \<open>toLowerCase\<close> on the ASCII letters. The program only compares its result with
  \<open>"alternate"\<close> and matches ASCII words without regard to case, and no other code unit
  folds to an ASCII letter of those words, so the other code units stay as they are.
\<close>

definition lowerChar :: "char \<Rightarrow> char" where
  "lowerChar c =
     (case map_of (zip ''ABCDEFGHIJKLMNOPQRSTUVWXYZ'' ''abcdefghijklmnopqrstuvwxyz'') c of
        Some l \<Rightarrow> l | None \<Rightarrow> c)"

definition toLowerCase :: "string \<Rightarrow> string" where
  "toLowerCase s = map lowerChar s"

text \<open>The value of a digit: its place in the string of the ten digits.\<close>

definition digitVal :: "char \<Rightarrow> nat" where
  "digitVal c = length (takeWhile (\<lambda>d. d \<noteq> c) ''0123456789'')"

text \<open>The value of a string of decimal digits, most significant first.\<close>

definition digitsVal :: "string \<Rightarrow> nat" where
  "digitsVal s = foldl (\<lambda>acc c. 10 * acc + digitVal c) 0 s"

text \<open>\<open>Number(s)\<close> on a string that matches \<open>-?\d+\<close>.\<close>

definition numberOf :: "string \<Rightarrow> jsnum" where
  "numberOf s =
     (case s of
        c # r \<Rightarrow> (if c = CHR ''-'' then Fin (- int (digitsVal r)) else Fin (int (digitsVal s)))
      | [] \<Rightarrow> Fin 0)"

text \<open>\<open>String(v)\<close>. An integer prints in decimal (below \<open>10 ^ 21\<close> in magnitude).\<close>

definition digitChar :: "nat \<Rightarrow> char" where
  "digitChar d = ''0123456789'' ! (d mod 10)"

fun showNat :: "nat \<Rightarrow> string" where
  "showNat n = (if n < 10 then [digitChar n] else showNat (n div 10) @ [digitChar (n mod 10)])"

definition showNum :: "jsnum \<Rightarrow> string" where
  "showNum v =
     (case v of
        NaN \<Rightarrow> ''NaN''
      | Fin i \<Rightarrow> (if i < 0 then CHR ''-'' # showNat (nat (- i)) else showNat (nat i))
      | PosInf \<Rightarrow> ''Infinity''
      | NegInf \<Rightarrow> ''-Infinity'')"

fun joinComma :: "string list \<Rightarrow> string" where
  "joinComma [] = []"
| "joinComma [s] = s"
| "joinComma (s # ss) = s @ '','' @ joinComma ss"

text \<open>
  An array prints its elements joined by commas, null and undefined as the empty string;
  a plain object prints \<open>[object Object]\<close>; a built-in method prints its source
  placeholder. Only the caller's lower bound can be a \<open>Date\<close>, and \<open>toTs\<close> returns
  its time value without printing it: the calendar string it would print is not
  modelled, and the model prints the time value.
\<close>

fun jsString :: "jsval \<Rightarrow> string" where
  "jsString JUndef = ''undefined''"
| "jsString JNull = ''null''"
| "jsString (JBool b) = (if b then ''true'' else ''false'')"
| "jsString (JNum v) = showNum v"
| "jsString (JStr s) = s"
| "jsString (JArr xs) = joinComma (map (\<lambda>x. if nullish x then [] else jsString x) xs)"
| "jsString (JObj _) = ''[object Object]''"
| "jsString (JDate v) = showNum v"
| "jsString (JFunc n) = ''function '' @ n @ ''() { [native code] }''"

section \<open>The timestamp normaliser\<close>

text \<open>
  Fixed shapes of the regular expressions: one class per code unit.
\<close>

datatype cls = D | Up | Low | Lit char | OneOf "char list"

fun matchCls :: "cls \<Rightarrow> char \<Rightarrow> bool" where
  "matchCls D c = isDigit c"
| "matchCls Up c = isUpperAZ c"
| "matchCls Low c = isLowerAZ c"
| "matchCls (Lit l) c = (c = l)"
| "matchCls (OneOf ls) c = (c \<in> set ls)"

text \<open>\<open>/^-?\d{9,13}$/\<close>\<close>

definition epochLike :: "string \<Rightarrow> bool" where
  "epochLike s =
     (let d = (case s of c # r \<Rightarrow> (if c = CHR ''-'' then r else s) | [] \<Rightarrow> s)
      in 9 \<le> length d \<and> length d \<le> 13 \<and> list_all isDigit d)"

text \<open>\<open>/^\d{8}$/\<close>\<close>

definition basicDateLike :: "string \<Rightarrow> bool" where
  "basicDateLike s = (length s = 8 \<and> list_all isDigit s)"

text \<open>\<open>/^\d{4}-\d{2}-\d{2}[ T]\d{2}:\d{2}:\d{2}$/\<close>\<close>

definition unzonedShape :: "cls list" where
  "unzonedShape =
     [D, D, D, D, Lit (CHR ''-''), D, D, Lit (CHR ''-''), D, D, OneOf '' T'',
      D, D, Lit (CHR '':''), D, D, Lit (CHR '':''), D, D]"

definition unzonedLike :: "string \<Rightarrow> bool" where
  "unzonedLike s = list_all2 matchCls unzonedShape s"

text \<open>\<open>s.replace(" ", "T")\<close>: the first space only.\<close>

fun replaceFirstSpace :: "string \<Rightarrow> string" where
  "replaceFirstSpace [] = []"
| "replaceFirstSpace (c # cs) = (if c = CHR '' '' then CHR ''T'' # cs else c # replaceFirstSpace cs)"

text \<open>
  \<open>toTs\<close>. \<open>Date.parse\<close> belongs to the runtime and is a parameter \<open>dp\<close>: it returns
  the milliseconds of the instant a string denotes, or NaN.
\<close>

definition scaleEpoch :: "jsnum \<Rightarrow> jsnum" where
  "scaleEpoch v = (if jsLt v (Fin 1000000000000) then timesThousand v else v)"

definition toTsString :: "(string \<Rightarrow> jsnum) \<Rightarrow> string \<Rightarrow> jsnum" where
  "toTsString dp s =
     (if epochLike s then scaleEpoch (numberOf s)
      else if basicDateLike s
              \<and> isFinite (dp (take 4 s @ ''-'' @ take 2 (drop 4 s) @ ''-'' @ take 2 (drop 6 s)
                               @ ''T00:00:00Z''))
        then dp (take 4 s @ ''-'' @ take 2 (drop 4 s) @ ''-'' @ take 2 (drop 6 s) @ ''T00:00:00Z'')
      else if unzonedLike s \<and> isFinite (dp (replaceFirstSpace s @ ''Z''))
        then dp (replaceFirstSpace s @ ''Z'')
      else if isFinite (dp s) then dp s else NaN)"

fun toTs :: "(string \<Rightarrow> jsnum) \<Rightarrow> jsval \<Rightarrow> jsnum" where
  "toTs dp JUndef = NaN"
| "toTs dp JNull = NaN"
| "toTs dp (JDate t) = t"
| "toTs dp (JNum v) = scaleEpoch v"
| "toTs dp (JStr s) = (if s = [] then NaN else toTsString dp (trim s))"
| "toTs dp v = toTsString dp (trim (jsString v))"

text \<open>\<open>firstTs(...vals)\<close>: the first finite timestamp among the values, else NaN.\<close>

fun firstTs :: "(string \<Rightarrow> jsnum) \<Rightarrow> jsval list \<Rightarrow> jsnum" where
  "firstTs dp [] = NaN"
| "firstTs dp (v # vs) = (if isFinite (toTs dp v) then toTs dp v else firstTs dp vs)"

text \<open>
  \<open>includeByFrom(ts, fromTs)\<close>. The lower bound is \<open>None\<close> for null.
\<close>

fun includeByFrom :: "jsnum \<Rightarrow> jsnum option \<Rightarrow> bool" where
  "includeByFrom ts None = True"
| "includeByFrom ts (Some lb) = (isFinite ts \<and> jsGe ts lb)"

section \<open>The collaborators and the state of a traversal\<close>

text \<open>
  What \<open>fetch\<close> resolves to, as far as the loop reads it: \<open>res.ok\<close>, \<open>res.url\<close> (the
  address after redirects) and the body. Reading the body can throw
  (\<open>await res.arrayBuffer()\<close> is outside every \<open>try\<close>); decompressing and decoding
  cannot (their failures are caught and fall back); \<open>parser.parse\<close> can throw, inside
  a \<open>try\<close>, or returns the tree.
\<close>

datatype body = BodyError | ParseError | Parsed jsval

record response =
  resOk :: bool
  resUrl :: string
  resBody :: body

text \<open>
  The services the program consumes: \<open>fetch\<close> (\<open>None\<close> when it throws),
  \<open>new URL(ref, base).toString()\<close> (\<open>None\<close> when the constructor throws) and
  \<open>Date.parse\<close>.
\<close>

record env =
  httpFetch :: "string \<Rightarrow> response option"
  resolveUrl :: "string \<Rightarrow> string \<Rightarrow> string option"
  dateParse :: "string \<Rightarrow> jsnum"

datatype error = InvalidFromDate | TypeError | BodyReadError

text \<open>
  The four variables of the loop. \<open>queue\<close> is the array read from its end: the head of
  the list is the element that \<open>pop\<close> returns, and \<open>push\<close> is \<open>#\<close>. Two fields are
  not in the program and nothing reads them: \<open>fetched\<close> records the addresses passed to
  \<open>fetch\<close>, \<open>emitted\<close> the addresses handed to the block that tests \<open>seen\<close> and
  pushes to \<open>results\<close>, both in order.
\<close>

record cstate =
  queue :: "string list"
  visited :: "string set"
  results :: "string list"
  seen :: "string set"
  fetched :: "string list"
  emitted :: "string list"

text \<open>\<open>if (!seen.has(abs)) { seen.add(abs); results.push(abs); }\<close>\<close>

definition addResult :: "string \<Rightarrow> cstate \<Rightarrow> cstate" where
  "addResult absUrl st =
     (if absUrl \<in> seen st then st\<lparr>emitted := emitted st @ [absUrl]\<rparr>
      else st\<lparr>seen := insert absUrl (seen st), results := results st @ [absUrl],
               emitted := emitted st @ [absUrl]\<rparr>)"

text \<open>
  \<open>try { const abs = new URL(String(v).trim(), base).toString(); ... } catch {}\<close>
\<close>

definition emitUrl :: "env \<Rightarrow> string \<Rightarrow> string \<Rightarrow> cstate \<Rightarrow> cstate" where
  "emitUrl e base ref st =
     (case resolveUrl e ref base of None \<Rightarrow> st | Some absUrl \<Rightarrow> addResult absUrl st)"

section \<open>The extractors\<close>

subsection \<open>Sitemap index\<close>

definition indexLoc :: "jsval \<Rightarrow> jsval" where
  "indexLoc it =
     jsOr (jsOr (getProp it ''loc'') (getProp it ''link''))
          (jsAnd (getProp it ''url'') (getProp (getProp it ''url'') ''loc''))"

definition indexEntry :: "env \<Rightarrow> string \<Rightarrow> jsval \<Rightarrow> cstate \<Rightarrow> cstate" where
  "indexEntry e base it st =
     (let loc = indexLoc it in
      if \<not> truthy loc then st
      else (case resolveUrl e (trim (jsString loc)) base of
              None \<Rightarrow> st
            | Some absUrl \<Rightarrow> if absUrl \<in> visited st then st else st\<lparr>queue := absUrl # queue st\<rparr>))"

fun indexEntries :: "env \<Rightarrow> string \<Rightarrow> jsval list \<Rightarrow> cstate \<Rightarrow> cstate" where
  "indexEntries e base [] st = st"
| "indexEntries e base (it # its) st = indexEntries e base its (indexEntry e base it st)"

subsection \<open>URL set\<close>

definition urlLastmod :: "jsval \<Rightarrow> jsval" where
  "urlLastmod it =
     jsCoalesce (jsCoalesce (jsCoalesce (getProp it ''lastmod'') (getProp it ''lastModified''))
                            (getProp it ''modified''))
                (getProp it ''changeDate'')"

definition urlNewsTs :: "(string \<Rightarrow> jsnum) \<Rightarrow> jsval \<Rightarrow> jsnum" where
  "urlNewsTs dp it =
     (let newsNode = jsOr (getProp it ''news'') (getProp it ''news_news'') in
      firstTs dp [getProp newsNode ''publication_date'', getProp newsNode ''published'',
                  getProp newsNode ''updated'', getProp newsNode ''pubDate'',
                  getProp it ''news:publication_date''])"

definition urlVideoTs :: "(string \<Rightarrow> jsnum) \<Rightarrow> jsval \<Rightarrow> jsnum" where
  "urlVideoTs dp it =
     (let vid = jsOr (getProp it ''video'') (getProp it ''video_video'') in
      firstTs dp [getProp vid ''publication_date'', getProp vid ''upload_date'',
                  getProp vid ''expiration_date'', getProp vid ''live_stream_start_time'',
                  getProp vid ''live_stream_end_time'', getProp vid ''release_date''])"

text \<open>
  \<open>urlTs = firstTs(lastmod, newsTs, videoTs)\<close>: the two nested timestamps are numbers
  and go through \<open>toTs\<close> once more.
\<close>

definition urlTs :: "(string \<Rightarrow> jsnum) \<Rightarrow> jsval \<Rightarrow> jsnum" where
  "urlTs dp it = firstTs dp [urlLastmod it, JNum (urlNewsTs dp it), JNum (urlVideoTs dp it)]"

definition urlInclude :: "(string \<Rightarrow> jsnum) \<Rightarrow> jsnum option \<Rightarrow> jsval \<Rightarrow> bool" where
  "urlInclude dp fromTs it =
     (if fromTs = None then truthy (getProp it ''loc'')
      else truthy (getProp it ''loc'') \<and> includeByFrom (urlTs dp it) fromTs)"

text \<open>\<open>(v).toLowerCase()\<close> on a value that is not null: only a string has the method.\<close>

fun lowerOf :: "jsval \<Rightarrow> error + string" where
  "lowerOf (JStr s) = Inr (toLowerCase s)"
| "lowerOf _ = Inl TypeError"

definition altHref :: "jsval \<Rightarrow> jsval" where
  "altHref l =
     jsCoalesce (jsCoalesce (jsCoalesce (getProp l ''href'') (getProp l ''@_href''))
                            (getProp l ''url''))
                JNull"

definition altRel :: "jsval \<Rightarrow> error + string" where
  "altRel l =
     lowerOf (jsCoalesce (jsCoalesce (getProp l ''rel'') (getProp l ''@_rel''))
                         (JStr ''alternate''))"

definition urlAltLinks :: "jsval \<Rightarrow> jsval list" where
  "urlAltLinks it =
     (let xh = jsOr (jsOr (getProp it ''xhtml_link'') (getProp it ''xhtml'')) (getProp it ''link'')
      in if isArray xh then asArray xh else if truthy xh then [xh] else [])"

text \<open>
  One alternate link. The relation is lowered before the test on the href, so a relation
  that is not a string throws out of the whole call.
\<close>

definition urlAlt :: "env \<Rightarrow> jsnum option \<Rightarrow> string \<Rightarrow> jsnum \<Rightarrow> jsval \<Rightarrow> cstate \<Rightarrow> error + cstate" where
  "urlAlt e fromTs base ts l st =
     (case altRel l of
        Inl err \<Rightarrow> Inl err
      | Inr rel \<Rightarrow>
          if \<not> truthy (altHref l) \<or> rel \<noteq> ''alternate'' then Inr st
          else (case resolveUrl e (trim (jsString (altHref l))) base of
                  None \<Rightarrow> Inr st
                | Some absAlt \<Rightarrow>
                    if absAlt \<in> seen st then Inr st
                    else if includeByFrom ts fromTs then Inr (addResult absAlt st)
                    else Inr st))"

fun urlAlts :: "env \<Rightarrow> jsnum option \<Rightarrow> string \<Rightarrow> jsnum \<Rightarrow> jsval list \<Rightarrow> cstate \<Rightarrow> error + cstate" where
  "urlAlts e fromTs base ts [] st = Inr st"
| "urlAlts e fromTs base ts (l # ls) st =
     (case urlAlt e fromTs base ts l st of
        Inl err \<Rightarrow> Inl err
      | Inr st' \<Rightarrow> urlAlts e fromTs base ts ls st')"

definition urlEntry :: "env \<Rightarrow> jsnum option \<Rightarrow> string \<Rightarrow> jsval \<Rightarrow> cstate \<Rightarrow> error + cstate" where
  "urlEntry e fromTs base it st =
     (if \<not> urlInclude (dateParse e) fromTs it then Inr st
      else urlAlts e fromTs base (urlTs (dateParse e) it) (urlAltLinks it)
             (emitUrl e base (trim (jsString (getProp it ''loc''))) st))"

fun urlEntries :: "env \<Rightarrow> jsnum option \<Rightarrow> string \<Rightarrow> jsval list \<Rightarrow> cstate \<Rightarrow> error + cstate" where
  "urlEntries e fromTs base [] st = Inr st"
| "urlEntries e fromTs base (it # its) st =
     (case urlEntry e fromTs base it st of
        Inl err \<Rightarrow> Inl err
      | Inr st' \<Rightarrow> urlEntries e fromTs base its st')"

subsection \<open>RSS, Atom and RDF\<close>

definition rssLink :: "jsval \<Rightarrow> jsval" where
  "rssLink it =
     jsOr (jsOr (getProp it ''link'') (getProp (getProp it ''enclosure'') ''url''))
          (getProp it ''guid'')"

definition rssTs :: "(string \<Rightarrow> jsnum) \<Rightarrow> jsval \<Rightarrow> jsnum" where
  "rssTs dp it =
     firstTs dp [getProp it ''pubDate'', getProp it ''updated'', getProp it ''date'',
                 getProp it ''dc:date'', getProp it ''dcterms:modified'', getProp it ''issued'']"

text \<open>The tail that the RSS, Atom and RDF loops share, from \<open>if (!link) continue\<close> on.\<close>

definition emitEntry :: "env \<Rightarrow> jsnum option \<Rightarrow> string \<Rightarrow> jsval \<Rightarrow> jsnum \<Rightarrow> cstate \<Rightarrow> cstate" where
  "emitEntry e fromTs base link ts st =
     (if \<not> truthy link then st
      else if \<not> includeByFrom ts fromTs then st
      else emitUrl e base (trim (jsString link)) st)"

definition rssEntry :: "env \<Rightarrow> jsnum option \<Rightarrow> string \<Rightarrow> jsval \<Rightarrow> cstate \<Rightarrow> cstate" where
  "rssEntry e fromTs base it st = emitEntry e fromTs base (rssLink it) (rssTs (dateParse e) it) st"

fun rssEntries :: "env \<Rightarrow> jsnum option \<Rightarrow> string \<Rightarrow> jsval list \<Rightarrow> cstate \<Rightarrow> cstate" where
  "rssEntries e fromTs base [] st = st"
| "rssEntries e fromTs base (it # its) st = rssEntries e fromTs base its (rssEntry e fromTs base it st)"

text \<open>
  The scan of an Atom entry's array of links: \<open>chosen\<close> is the variable of the loop,
  null at the start; the loop left by \<open>break\<close> returns the href it has just chosen.
\<close>

definition atomRel :: "jsval \<Rightarrow> error + string" where
  "atomRel l = lowerOf (jsOr (jsOr (getProp l ''rel'') (getProp l ''@_rel'')) (JStr ''alternate''))"

definition atomHref :: "jsval \<Rightarrow> jsval" where
  "atomHref l = jsOr (getProp l ''href'') (getProp l ''@_href'')"

fun atomChoose :: "jsval \<Rightarrow> jsval list \<Rightarrow> error + jsval" where
  "atomChoose chosen [] = Inr chosen"
| "atomChoose chosen (l # ls) =
     (case atomRel l of
        Inl err \<Rightarrow> Inl err
      | Inr rel \<Rightarrow>
          if rel = ''alternate'' \<and> truthy (atomHref l) then Inr (atomHref l)
          else atomChoose (if \<not> truthy chosen then atomHref l else chosen) ls)"

text \<open>\<open>typeof v === "object"\<close>\<close>

fun typeofObject :: "jsval \<Rightarrow> bool" where
  "typeofObject JNull = True"
| "typeofObject (JArr _) = True"
| "typeofObject (JObj _) = True"
| "typeofObject (JDate _) = True"
| "typeofObject _ = False"

fun isString :: "jsval \<Rightarrow> bool" where
  "isString (JStr _) = True"
| "isString _ = False"

definition atomLink :: "jsval \<Rightarrow> error + jsval" where
  "atomLink it =
     (let L = getProp it ''link'' in
      if isArray L then atomChoose JNull (asArray L)
      else if truthy L \<and> typeofObject L then Inr (atomHref L)
      else if isString L then Inr L
      else Inr JNull)"

definition atomTs :: "(string \<Rightarrow> jsnum) \<Rightarrow> jsval \<Rightarrow> jsnum" where
  "atomTs dp it =
     firstTs dp [getProp it ''updated'', getProp it ''published'', getProp it ''issued'',
                 getProp it ''dc:date'', getProp it ''dcterms:modified'',
                 getProp it ''updated_at'', getProp it ''created_at'']"

definition atomEntry :: "env \<Rightarrow> jsnum option \<Rightarrow> string \<Rightarrow> jsval \<Rightarrow> cstate \<Rightarrow> error + cstate" where
  "atomEntry e fromTs base it st =
     (case atomLink it of
        Inl err \<Rightarrow> Inl err
      | Inr linkVal \<Rightarrow> Inr (emitEntry e fromTs base linkVal (atomTs (dateParse e) it) st))"

fun atomEntries :: "env \<Rightarrow> jsnum option \<Rightarrow> string \<Rightarrow> jsval list \<Rightarrow> cstate \<Rightarrow> error + cstate" where
  "atomEntries e fromTs base [] st = Inr st"
| "atomEntries e fromTs base (it # its) st =
     (case atomEntry e fromTs base it st of
        Inl err \<Rightarrow> Inl err
      | Inr st' \<Rightarrow> atomEntries e fromTs base its st')"

definition rdfLink :: "jsval \<Rightarrow> jsval" where
  "rdfLink it =
     jsOr (jsOr (jsOr (getProp it ''link'') (getProp it ''rss:link'')) (getProp it ''rdf:about''))
          (getProp it ''guid'')"

definition rdfTs :: "(string \<Rightarrow> jsnum) \<Rightarrow> jsval \<Rightarrow> jsnum" where
  "rdfTs dp it =
     firstTs dp [getProp it ''dc:date'', getProp it ''dcterms:modified'', getProp it ''pubDate'',
                 getProp it ''date'', getProp it ''issued'']"

definition rdfEntry :: "env \<Rightarrow> jsnum option \<Rightarrow> string \<Rightarrow> jsval \<Rightarrow> cstate \<Rightarrow> cstate" where
  "rdfEntry e fromTs base it st = emitEntry e fromTs base (rdfLink it) (rdfTs (dateParse e) it) st"

fun rdfEntries :: "env \<Rightarrow> jsnum option \<Rightarrow> string \<Rightarrow> jsval list \<Rightarrow> cstate \<Rightarrow> cstate" where
  "rdfEntries e fromTs base [] st = st"
| "rdfEntries e fromTs base (it # its) st = rdfEntries e fromTs base its (rdfEntry e fromTs base it st)"

subsection \<open>Generic fallback\<close>

definition startsWith :: "string \<Rightarrow> string \<Rightarrow> bool" where
  "startsWith p s = (take (length p) s = p)"

definition endsWith :: "string \<Rightarrow> string \<Rightarrow> bool" where
  "endsWith p s = (length p \<le> length s \<and> drop (length s - length p) s = p)"

definition isLetter :: "char \<Rightarrow> bool" where
  "isLetter c = (isLowerAZ c \<or> isUpperAZ c)"

text \<open>The class \<open>[A-Za-z0-9._~!$&'()*+,;=:@/%-]\<close>\<close>

definition pathChar :: "char \<Rightarrow> bool" where
  "pathChar c = (isLetter c \<or> isDigit c \<or> c = CHR 0x27 \<or> c \<in> set ''._~!$&()*+,;=:@/%-'')"

text \<open>
  \<open>/^(https?:)?\/\/|^[a-z]+:\/\/|^\/[A-Za-z0-9._~!$&'()*+,;=:@/%-]+/i\<close>
\<close>

definition urlLike :: "string \<Rightarrow> bool" where
  "urlLike s =
     (startsWith ''//'' s \<or> startsWith ''http://'' (toLowerCase s)
      \<or> startsWith ''https://'' (toLowerCase s)
      \<or> (takeWhile isLetter s \<noteq> [] \<and> startsWith ''://'' (dropWhile isLetter s))
      \<or> (case s of c # d # r \<Rightarrow> c = CHR ''/'' \<and> pathChar d | _ \<Rightarrow> False))"

text \<open>
  \<open>/(^|:)(w1|...|wn)$/i\<close>: the key is one of the words, or ends with a colon and
  one of them.
\<close>

definition keyLike :: "string list \<Rightarrow> string \<Rightarrow> bool" where
  "keyLike ws k = list_ex (\<lambda>w. toLowerCase k = w \<or> endsWith (CHR '':'' # w) (toLowerCase k)) ws"

definition dateKeyLike :: "string \<Rightarrow> bool" where
  "dateKeyLike k =
     keyLike [''lastmod'', ''updated'', ''pubdate'', ''date'', ''modified'', ''issued'',
              ''created'', ''time'', ''timestamp'', ''publication_date'', ''upload_date'',
              ''expiration_date'', ''release_date''] k"

definition urlKeyLike :: "string \<Rightarrow> bool" where
  "urlKeyLike k = keyLike [''loc'', ''url'', ''link'', ''href'', ''canonical'', ''@href'', ''@_href''] k"

text \<open>\<open>/^[A-Z][a-z]{2}\s+\d{1,2},\s+\d{4}/\<close>\<close>

definition monthDayYearLike :: "string \<Rightarrow> bool" where
  "monthDayYearLike s =
     (let r = drop 3 s;
          r1 = dropWhile isSpace r;
          ds = takeWhile isDigit r1;
          r2 = dropWhile isDigit r1;
          r3 = drop 1 r2;
          r4 = dropWhile isSpace r3
      in list_all2 matchCls [Up, Low, Low] (take 3 s)
         \<and> length r1 < length r
         \<and> (length ds = 1 \<or> length ds = 2)
         \<and> take 1 r2 = '',''
         \<and> length r4 < length r3
         \<and> list_all2 matchCls [D, D, D, D] (take 4 r4))"

text \<open>
  The tests on a value: \<open>/^-?\d{9,13}$/\<close>, \<open>/^\d{8}$/\<close>, \<open>/^\d{4}-\d{2}-\d{2}/\<close>,
  \<open>/^[A-Z][a-z]{2},/\<close> and the one above.
\<close>

definition dateValueLike :: "string \<Rightarrow> bool" where
  "dateValueLike s =
     (epochLike s \<or> basicDateLike s
      \<or> list_all2 matchCls [D, D, D, D, Lit (CHR ''-''), D, D, Lit (CHR ''-''), D, D] (take 10 s)
      \<or> list_all2 matchCls [Up, Low, Low, Lit (CHR '','')] (take 4 s)
      \<or> monthDayYearLike s)"

text \<open>\<open>!found\<close> on a variable that is null or a string.\<close>

fun unset :: "string option \<Rightarrow> bool" where
  "unset None = True"
| "unset (Some s) = (s = [])"

text \<open>The scan of a node's scalars for \<open>foundUrl\<close> and \<open>foundDate\<close>.\<close>

fun scanScalars :: "(string \<times> jsval) list \<Rightarrow> string option \<times> string option
                     \<Rightarrow> string option \<times> string option" where
  "scanScalars [] found = found"
| "scanScalars ((k, v) # kvs) (foundUrl, foundDate) =
     (let sv = trim (jsString (jsCoalesce v (JStr [])))
      in scanScalars kvs
           (if unset foundUrl \<and> (urlKeyLike k \<or> urlLike sv) then Some sv else foundUrl,
            if unset foundDate \<and> (dateKeyLike k \<or> dateValueLike sv) then Some sv else foundDate))"

definition genericNode :: "env \<Rightarrow> jsnum option \<Rightarrow> string \<Rightarrow> (string \<times> jsval) list \<Rightarrow> cstate \<Rightarrow> cstate" where
  "genericNode e fromTs base scalars st =
     (case scanScalars scalars (None, None) of
        (foundUrl, foundDate) \<Rightarrow>
          if unset foundUrl then st
          else if fromTs = None then emitUrl e base (the foundUrl) st
          else if \<not> unset foundDate then
            (if includeByFrom (toTs (dateParse e) (JStr (the foundDate))) fromTs
             then emitUrl e base (the foundUrl) st else st)
          else st)"

text \<open>\<open>Object.entries\<close> of a node that is not an array.\<close>

fun entriesOf :: "jsval \<Rightarrow> (string \<times> jsval) list" where
  "entriesOf (JObj kvs) = kvs"
| "entriesOf _ = []"

definition isNested :: "string \<times> jsval \<Rightarrow> bool" where
  "isNested kv = (truthy (snd kv) \<and> typeofObject (snd kv))"

text \<open>
  The walk over the tree. \<open>stack\<close> is read from its end like \<open>queue\<close>: the head of the
  list is the node that \<open>pop\<close> returns, and pushing \<open>vs\<close> in order puts \<open>rev vs\<close> in
  front.
\<close>

function genericWalk :: "env \<Rightarrow> jsnum option \<Rightarrow> string \<Rightarrow> jsval list \<Rightarrow> cstate \<Rightarrow> cstate" where
  "genericWalk e fromTs base [] st = st"
| "genericWalk e fromTs base (node # stack) st =
     (if \<not> truthy node then genericWalk e fromTs base stack st
      else if isArray node then genericWalk e fromTs base (rev (asArray node) @ stack) st
      else if \<not> typeofObject node then genericWalk e fromTs base stack st
      else genericWalk e fromTs base
             (rev (map snd (filter isNested (entriesOf node))) @ stack)
             (genericNode e fromTs base (filter (\<lambda>kv. \<not> isNested kv) (entriesOf node)) st))"
  by pat_completeness auto

termination genericWalk
proof (relation "measure (\<lambda>(e, fromTs, base, stack, st). sum_list (map (\<lambda>v. Suc (size v)) stack))",
       goal_cases)
  case 1
  show ?case by simp
next
  case 2
  then show ?case by simp
next
  case (3 e fromTs base node stack st)
  have "sum_list (map (\<lambda>v. Suc (size v)) xs) \<le> size_list size xs" for xs :: "jsval list"
    by (induction xs) auto
  from this[of "asArray node"] 3
  have "sum_list (map (\<lambda>v. Suc (size v)) (asArray node)) < Suc (size node)"
    by (cases node) auto
  then show ?case by (simp add: rev_map[symmetric])
next
  case 4
  then show ?case by simp
next
  case (5 e fromTs base node stack st)
  have "sum_list (map (\<lambda>v. Suc (size v)) (map snd (filter isNested kvs)))
          \<le> size_list (size_prod (\<lambda>_. 0) size) kvs" for kvs :: "(string \<times> jsval) list"
    by (induction kvs) auto
  from this[of "entriesOf node"] 5
  have "sum_list (map (\<lambda>v. Suc (size v)) (map snd (filter isNested (entriesOf node))))
          < Suc (size node)"
    by (cases node) auto
  then show ?case by (simp add: rev_map[symmetric])
qed

section \<open>The classifier and the crawl loop\<close>

datatype dialect = SitemapIndex | UrlSet | Rss | Atom | Rdf | Generic

text \<open>The tests of the loop body, in its order; each is a test of truthiness.\<close>

definition rdfRoot :: "jsval \<Rightarrow> jsval" where
  "rdfRoot data = jsOr (jsOr (getProp data ''RDF'') (getProp data ''rdf'')) (getProp data ''rdf:RDF'')"

definition classify :: "jsval \<Rightarrow> dialect" where
  "classify data =
     (if truthy (getProp (getProp data ''sitemapindex'') ''sitemap'') then SitemapIndex
      else if truthy (getProp (getProp data ''urlset'') ''url'') then UrlSet
      else if truthy (getProp (getProp data ''rss'') ''channel'') then Rss
      else if truthy (getProp data ''feed'') then Atom
      else if truthy (rdfRoot data) then Rdf
      else Generic)"

definition processDoc :: "env \<Rightarrow> jsnum option \<Rightarrow> string \<Rightarrow> jsval \<Rightarrow> cstate \<Rightarrow> error + cstate" where
  "processDoc e fromTs base data st =
     (case classify data of
        SitemapIndex \<Rightarrow>
          Inr (indexEntries e base (asArray (getProp (getProp data ''sitemapindex'') ''sitemap'')) st)
      | UrlSet \<Rightarrow>
          urlEntries e fromTs base (asArray (getProp (getProp data ''urlset'') ''url'')) st
      | Rss \<Rightarrow>
          Inr (rssEntries e fromTs base
                 (asArrayOrEmpty (getProp (getProp (getProp data ''rss'') ''channel'') ''item'')) st)
      | Atom \<Rightarrow>
          atomEntries e fromTs base (asArrayOrEmpty (getProp (getProp data ''feed'') ''entry'')) st
      | Rdf \<Rightarrow>
          Inr (rdfEntries e fromTs base (asArrayOrEmpty (getProp (rdfRoot data) ''item'')) st)
      | Generic \<Rightarrow>
          Inr (genericWalk e fromTs base [data] st))"

text \<open>\<open>const base = res.url || current\<close>\<close>

definition docBase :: "response \<Rightarrow> string \<Rightarrow> string" where
  "docBase res current = (if resUrl res = [] then current else resUrl res)"

text \<open>
  One turn of the loop after \<open>queue.pop()\<close>. An error leaves the call; it carries the
  record of the fetches made until then.
\<close>

definition visit :: "env \<Rightarrow> jsnum option \<Rightarrow> string \<Rightarrow> cstate \<Rightarrow> (error \<times> string list) + cstate" where
  "visit e fromTs current st =
     (if current = [] \<or> current \<in> visited st then Inr st
      else
        (let st1 = st\<lparr>visited := insert current (visited st), fetched := fetched st @ [current]\<rparr>
         in case httpFetch e current of
              None \<Rightarrow> Inr st1
            | Some res \<Rightarrow>
                if \<not> resOk res then Inr st1
                else (case resBody res of
                        BodyError \<Rightarrow> Inl (BodyReadError, fetched st1)
                      | ParseError \<Rightarrow> Inr st1
                      | Parsed data \<Rightarrow>
                          (case processDoc e fromTs (docBase res current) data st1 of
                             Inl err \<Rightarrow> Inl (err, fetched st1)
                           | Inr st2 \<Rightarrow> Inr st2))))"




definition initState :: "string \<Rightarrow> cstate" where
  "initState xmlUrl =
     \<lparr>queue = [xmlUrl], visited = {}, results = [], seen = {}, fetched = [], emitted = []\<rparr>"


section \<open>Example collaborators\<close>

text \<open>
  A \<open>Date.parse\<close> for the examples: the instants of a few calendar strings, NaN for
  every other string.
\<close>

definition exampleParse :: "string \<Rightarrow> jsnum" where
  "exampleParse s =
     (case map_of [(''2022-01-01'', Fin 1640995200000), (''2023-01-01'', Fin 1672531200000),
                   (''2023-06-01'', Fin 1685577600000),
                   (''2000-01-01T00:00:00Z'', Fin 946684800000)] s of
        Some t \<Rightarrow> t | None \<Rightarrow> NaN)"

text \<open>
  A URL constructor for the examples, whose documents are all on the host \<open>h\<close>: an
  absolute \<open>http\<close> reference is its own result, a reference that starts with a slash is
  a path on the host, and the constructor throws on anything else.
\<close>

definition exampleResolve :: "string \<Rightarrow> string \<Rightarrow> string option" where
  "exampleResolve ref base =
     (if startsWith ''http://'' ref then Some ref
      else if startsWith ''/'' ref then Some (''http://h'' @ ref)
      else None)"


text \<open>The collaborators without a network: every fetch throws.\<close>

definition exampleEnv :: env where
  "exampleEnv = \<lparr>httpFetch = (\<lambda>u. None), resolveUrl = exampleResolve, dateParse = exampleParse\<rparr>"






section \<open>Notions for the statements\<close>



text \<open>
  A property of the state is closed under emission from a document when adding an
  address that the URL constructor returns against the document's base keeps it; it
  is closed under enqueueing when pushing such an address, not yet visited, keeps it.
  Every extractor is a sequence of such steps.
\<close>

definition emitClosed :: "env \<Rightarrow> string \<Rightarrow> (cstate \<Rightarrow> bool) \<Rightarrow> bool" where
  "emitClosed e base P = (\<forall>u r st. resolveUrl e r base = Some u \<longrightarrow> P st \<longrightarrow> P (addResult u st))"

definition pushClosed :: "env \<Rightarrow> string \<Rightarrow> (cstate \<Rightarrow> bool) \<Rightarrow> bool" where
  "pushClosed e base P =
     (\<forall>u r st. resolveUrl e r base = Some u \<longrightarrow> u \<notin> visited st \<longrightarrow> P st \<longrightarrow> P (st\<lparr>queue := u # queue st\<rparr>))"


text \<open>
  The graph of the documents: the addresses that the index at an address lists, in the
  order of its entries, as the loop resolves them. A document that is not a sitemap
  index, or that cannot be fetched, read or parsed, lists nothing.
\<close>

definition indexChild :: "env \<Rightarrow> string \<Rightarrow> jsval \<Rightarrow> string option" where
  "indexChild e base it =
     (if truthy (indexLoc it) then resolveUrl e (trim (jsString (indexLoc it))) base else None)"

definition docLinks :: "env \<Rightarrow> string \<Rightarrow> jsval \<Rightarrow> string list" where
  "docLinks e base d =
     (if classify d = SitemapIndex
      then List.map_filter (indexChild e base)
             (asArray (getProp (getProp d ''sitemapindex'') ''sitemap''))
      else [])"

definition links :: "env \<Rightarrow> string \<Rightarrow> string list" where
  "links e c =
     (case httpFetch e c of
        None \<Rightarrow> []
      | Some res \<Rightarrow>
          (case resBody res of
             Parsed d \<Rightarrow> if resOk res then docLinks e (docBase res c) d else []
           | _ \<Rightarrow> []))"

text \<open>
  The documents of a traversal: the start address and the addresses listed by the
  documents reached, the empty address apart (the loop skips it).
\<close>

inductive_set reach :: "env \<Rightarrow> string \<Rightarrow> string set" for e :: env and x :: string where
  start: "x \<noteq> [] \<Longrightarrow> x \<in> reach e x"
| step: "c \<in> reach e x \<Longrightarrow> u \<in> set (links e c) \<Longrightarrow> u \<noteq> [] \<Longrightarrow> u \<in> reach e x"


text \<open>\<open>visited.add(current)\<close> and the fetch that follows it.\<close>

definition markVisited :: "string \<Rightarrow> cstate \<Rightarrow> cstate" where
  "markVisited c st = st\<lparr>visited := insert c (visited st), fetched := fetched st @ [c]\<rparr>"




text \<open>
  The references of a document: the strings that its extractor hands to the URL
  constructor for emission, in the order of their first occurrence. They are read off
  the extractor itself, run on the document alone with a constructor that returns the
  reference as it is.
\<close>

definition recorder :: "env \<Rightarrow> env" where
  "recorder e = e\<lparr>resolveUrl := (\<lambda>r b. Some r)\<rparr>"

definition blank :: cstate where
  "blank = \<lparr>queue = [], visited = {}, results = [], seen = {}, fetched = [], emitted = []\<rparr>"

definition docRefs :: "env \<Rightarrow> jsnum option \<Rightarrow> jsval \<Rightarrow> string list" where
  "docRefs e fromTs d =
     (case processDoc (recorder e) fromTs [] d blank of Inr s \<Rightarrow> results s | Inl err \<Rightarrow> [])"

text \<open>
  What the document at an address yields: its references, each resolved against the
  address that the response carries (the address after redirects), or against the
  address fetched when the response carries none. An address that cannot be fetched,
  read or parsed yields nothing.
\<close>

definition docYield :: "env \<Rightarrow> jsnum option \<Rightarrow> string \<Rightarrow> string list" where
  "docYield e fromTs c =
     (case httpFetch e c of
        None \<Rightarrow> []
      | Some res \<Rightarrow>
          (case resBody res of
             Parsed d \<Rightarrow>
               if resOk res
               then List.map_filter
                      (\<lambda>r. resolveUrl e r (if resUrl res = [] then c else resUrl res))
                      (docRefs e fromTs d)
               else []
           | _ \<Rightarrow> []))"

text \<open>The output is what the documents visited yield.\<close>

definition yieldInv :: "env \<Rightarrow> jsnum option \<Rightarrow> cstate \<Rightarrow> bool" where
  "yieldInv e fromTs st =
     (seen st = set (results st) \<and> set (results st) = (\<Union>c\<in>visited st. set (docYield e fromTs c)))"

text \<open>
  Two runs of an extractor side by side, one with the URL constructor and one that
  records the references: the output of the first is what it held at the start and
  the references of the second, resolved.
\<close>

definition refsRel :: "env \<Rightarrow> string \<Rightarrow> string set \<Rightarrow> cstate \<Rightarrow> cstate \<Rightarrow> bool" where
  "refsRel e base A s t =
     (seen s = set (results s) \<and> seen t = set (results t)
      \<and> set (results s) = A \<union> {u. \<exists>r\<in>set (results t). resolveUrl e r base = Some u})"

fun relSum :: "('s \<Rightarrow> 't \<Rightarrow> bool) \<Rightarrow> error + 's \<Rightarrow> error + 't \<Rightarrow> bool" where
  "relSum R (Inl a) (Inl b) = (a = b)"
| "relSum R (Inr s) (Inr t) = R s t"
| "relSum R _ _ = False"





text \<open>The test that ends the scan of an Atom entry's links: \<open>rel === "alternate" && href\<close>.\<close>

definition isAlternateLink :: "jsval \<Rightarrow> bool" where
  "isAlternateLink l = (atomRel l = Inr ''alternate'' \<and> truthy (atomHref l))"

section \<open>Properties of the timestamp normaliser\<close>

subsection \<open>Rounding to a double\<close>

lemma bitLength_le: "n < 2 ^ k \<Longrightarrow> bitLength n \<le> k"
proof (induction k arbitrary: n)
  case 0
  then show ?case by (simp add: bitLength.simps)
next
  case (Suc k)
  show ?case
  proof (cases "n = 0")
    case True
    then show ?thesis by (simp add: bitLength.simps)
  next
    case False
    from Suc.prems have "n div 2 < 2 ^ k" by simp
    then have "bitLength (n div 2) \<le> k" by (rule Suc.IH)
    with False show ?thesis by (subst bitLength.simps) simp
  qed
qed




text \<open>The definition with its intermediate values named.\<close>

lemma roundDouble_unfold:
  assumes "a = nat \<bar>m\<bar>" "sh = bitLength a - 53" "q = a div 2 ^ sh" "r = a mod 2 ^ sh"
    "v = (if 2 ^ sh < 2 * r \<or> (2 * r = 2 ^ sh \<and> odd q) then q + 1 else q) * 2 ^ sh"
  shows "roundDouble m = (if 2 ^ 1024 \<le> v then (if m < 0 then NegInf else PosInf)
                          else Fin (if m < 0 then - int v else int v))"
  unfolding roundDouble_def Let_def assms by (rule refl)


text \<open>An integer whose magnitude fits the significand is a double.\<close>

lemma roundDouble_exact:
  assumes "2 ^ (bitLength (nat \<bar>m\<bar>) - 53) dvd m" "\<bar>m\<bar> < 2 ^ 1024"
  shows "roundDouble m = Fin m"
proof -
  define a where "a = nat \<bar>m\<bar>"
  define sh where "sh = bitLength a - 53"
  define q where "q = a div 2 ^ sh"
  define r where "r = a mod 2 ^ sh"
  define v where "v = (if 2 ^ sh < 2 * r \<or> (2 * r = 2 ^ sh \<and> odd q) then q + 1 else q) * 2 ^ sh"
  note rd = roundDouble_unfold [OF a_def sh_def q_def r_def v_def]
  from assms(1) have "(2::int) ^ sh dvd \<bar>m\<bar>" unfolding sh_def a_def by simp
  then have "int (2 ^ sh) dvd int a" unfolding a_def by simp
  then have d: "2 ^ sh dvd a" by (simp only: int_dvd_int_iff)
  then have r0: "r = 0" unfolding r_def by simp
  from d have "q * 2 ^ sh = a" unfolding q_def by simp
  with r0 have va: "v = a" unfolding v_def by simp
  have "int a = \<bar>m\<bar>" unfolding a_def by simp
  with assms(2) have "int a < int (2 ^ 1024)" by simp
  then have "a < 2 ^ 1024" by (simp only: of_nat_less_iff)
  then have nle: "\<not> 2 ^ 1024 \<le> a" by (simp only: not_le)
  have "(if m < 0 then - int a else int a) = m" unfolding a_def by simp
  then show ?thesis unfolding rd va using nle by (simp only: if_False)
qed

lemma roundDouble_small: "\<bar>m\<bar> < 9007199254740992 \<Longrightarrow> roundDouble m = Fin m"
proof (rule roundDouble_exact)
  assume a: "\<bar>m\<bar> < 9007199254740992"
  then have "nat \<bar>m\<bar> < 2 ^ 53" by (simp add: nat_less_iff)
  then have "bitLength (nat \<bar>m\<bar>) \<le> 53" by (rule bitLength_le)
  then have "bitLength (nat \<bar>m\<bar>) - 53 = 0" by simp
  then show "2 ^ (bitLength (nat \<bar>m\<bar>) - 53) dvd m" by simp
  have "(9007199254740992::int) < 2 ^ 1024" by simp
  with a show "\<bar>m\<bar> < 2 ^ 1024" by (rule less_trans)
qed





subsection \<open>The rule for numbers\<close>





subsection \<open>Strings of digits\<close>














lemma firstTs_NaN: "(\<forall>v\<in>set vs. \<not> isFinite (toTs dp v)) \<Longrightarrow> firstTs dp vs = NaN"
  by (induction vs) auto

lemma firstTs_finite_iff: "isFinite (firstTs dp vs) \<longleftrightarrow> (\<exists>v\<in>set vs. isFinite (toTs dp v))"
  by (induction vs) auto

lemma isFinite_iff: "isFinite ts \<longleftrightarrow> (\<exists>t. ts = Fin t)"
  by (cases ts) simp_all

lemma includeByFrom_Some:
  "includeByFrom ts (Some lb) \<longleftrightarrow> (\<exists>t. ts = Fin t \<and> (lb = NegInf \<or> (\<exists>b. lb = Fin b \<and> b \<le> t)))"
  by (cases ts; cases lb) auto

lemmas toTs_eval =
  toTsString_def epochLike_def basicDateLike_def trim_def isSpace_def isDigit_def
  numberOf_def digitsVal_def digitVal_def scaleEpoch_def roundDouble_small exampleParse_def

text \<open>
  C10. The pattern of the epoch rule admits a leading minus sign: the string
  \<open>-123456789\<close> normalises to the finite negative value \<open>-123456789000\<close>, whatever
  \<open>Date.parse\<close> does. \<open>firstTs\<close> selects it as an entry's timestamp, and the
  inclusion predicate compares it with a lower bound: it passes a bound below it and
  fails a bound above it.
\<close>

theorem toTs_negative_epoch:
  "toTs dp (JStr ''-123456789'') = Fin (- 123456789000)
   \<and> firstTs dp [JStr ''-123456789''] = Fin (- 123456789000)
   \<and> includeByFrom (toTs dp (JStr ''-123456789'')) (Some (Fin (- 200000000000)))
   \<and> \<not> includeByFrom (toTs dp (JStr ''-123456789'')) (Some (Fin 0))"
  by (simp add: toTs_eval)







section \<open>Invariants of the traversal\<close>

subsection \<open>Deduplication\<close>





subsection \<open>What the extractors preserve\<close>

lemma emitUrl_pres: "emitClosed e base P \<Longrightarrow> P st \<Longrightarrow> P (emitUrl e base r st)"
  by (auto simp: emitClosed_def emitUrl_def split: option.splits)

lemma emitEntry_pres: "emitClosed e base P \<Longrightarrow> P st \<Longrightarrow> P (emitEntry e fromTs base link ts st)"
  by (simp add: emitEntry_def emitUrl_pres)

lemma rssEntries_pres: "emitClosed e base P \<Longrightarrow> P st \<Longrightarrow> P (rssEntries e fromTs base its st)"
  by (induction its arbitrary: st) (simp_all add: rssEntry_def emitEntry_pres)

lemma rdfEntries_pres: "emitClosed e base P \<Longrightarrow> P st \<Longrightarrow> P (rdfEntries e fromTs base its st)"
  by (induction its arbitrary: st) (simp_all add: rdfEntry_def emitEntry_pres)

lemma atomEntry_pres:
  "emitClosed e base P \<Longrightarrow> P st \<Longrightarrow> atomEntry e fromTs base it st = Inr st' \<Longrightarrow> P st'"
  by (auto simp: atomEntry_def emitEntry_pres split: sum.splits)

lemma atomEntries_pres:
  "emitClosed e base P \<Longrightarrow> P st \<Longrightarrow> atomEntries e fromTs base its st = Inr st' \<Longrightarrow> P st'"
proof (induction its arbitrary: st)
  case Nil
  then show ?case by simp
next
  case (Cons it its)
  then show ?case by (auto split: sum.splits dest: atomEntry_pres)
qed

lemma urlAlt_pres:
  "emitClosed e base P \<Longrightarrow> P st \<Longrightarrow> urlAlt e fromTs base ts l st = Inr st' \<Longrightarrow> P st'"
  by (auto simp: urlAlt_def emitClosed_def split: sum.splits if_splits option.splits)

lemma urlAlts_pres:
  "emitClosed e base P \<Longrightarrow> P st \<Longrightarrow> urlAlts e fromTs base ts ls st = Inr st' \<Longrightarrow> P st'"
proof (induction ls arbitrary: st)
  case Nil
  then show ?case by simp
next
  case (Cons l ls)
  then show ?case by (auto split: sum.splits dest: urlAlt_pres)
qed

lemma urlEntry_pres:
  "emitClosed e base P \<Longrightarrow> P st \<Longrightarrow> urlEntry e fromTs base it st = Inr st' \<Longrightarrow> P st'"
  by (auto simp: urlEntry_def split: if_splits dest: urlAlts_pres[OF _ emitUrl_pres])

lemma urlEntries_pres:
  "emitClosed e base P \<Longrightarrow> P st \<Longrightarrow> urlEntries e fromTs base its st = Inr st' \<Longrightarrow> P st'"
proof (induction its arbitrary: st)
  case Nil
  then show ?case by simp
next
  case (Cons it its)
  then show ?case by (auto split: sum.splits dest: urlEntry_pres)
qed

lemma genericNode_pres: "emitClosed e base P \<Longrightarrow> P st \<Longrightarrow> P (genericNode e fromTs base scalars st)"
  by (auto simp: genericNode_def emitUrl_pres split: prod.splits)

lemma genericWalk_pres: "emitClosed e base P \<Longrightarrow> P st \<Longrightarrow> P (genericWalk e fromTs base stack st)"
  by (induction e fromTs base stack st rule: genericWalk.induct) (auto simp: genericNode_pres)

lemma processDoc_emit_pres:
  "classify d \<noteq> SitemapIndex \<Longrightarrow> emitClosed e base P \<Longrightarrow> P st \<Longrightarrow>
   processDoc e fromTs base d st = Inr st' \<Longrightarrow> P st'"
  by (cases "classify d")
     (auto simp: processDoc_def rssEntries_pres rdfEntries_pres genericWalk_pres
           simp del: genericWalk.simps dest: urlEntries_pres atomEntries_pres)

lemma indexEntry_pres: "pushClosed e base P \<Longrightarrow> P st \<Longrightarrow> P (indexEntry e base it st)"
  by (auto simp: indexEntry_def pushClosed_def Let_def split: option.splits)

lemma indexEntries_pres: "pushClosed e base P \<Longrightarrow> P st \<Longrightarrow> P (indexEntries e base its st)"
  by (induction its arbitrary: st) (simp_all add: indexEntry_pres)


subsection \<open>What a document adds to the queue\<close>





subsection \<open>What a document yields\<close>

lemma recorder_simps [simp]:
  "dateParse (recorder e) = dateParse e" "resolveUrl (recorder e) r b = Some r"
  "httpFetch (recorder e) = httpFetch e"
  by (simp_all add: recorder_def)

lemma emitUrl_rel:
  "refsRel e base A s t \<Longrightarrow> refsRel e base A (emitUrl e base r s) (emitUrl (recorder e) b r t)"
  by (auto simp: refsRel_def emitUrl_def addResult_def split: option.splits)

lemma emitEntry_rel:
  "refsRel e base A s t \<Longrightarrow>
   refsRel e base A (emitEntry e fromTs base link ts s) (emitEntry (recorder e) fromTs b link ts t)"
  by (simp add: emitEntry_def emitUrl_rel)

lemma rssEntries_rel:
  "refsRel e base A s t \<Longrightarrow>
   refsRel e base A (rssEntries e fromTs base its s) (rssEntries (recorder e) fromTs b its t)"
  by (induction its arbitrary: s t) (simp_all add: rssEntry_def emitEntry_rel)

lemma rdfEntries_rel:
  "refsRel e base A s t \<Longrightarrow>
   refsRel e base A (rdfEntries e fromTs base its s) (rdfEntries (recorder e) fromTs b its t)"
  by (induction its arbitrary: s t) (simp_all add: rdfEntry_def emitEntry_rel)

lemma atomEntry_rel:
  "refsRel e base A s t \<Longrightarrow>
   relSum (refsRel e base A) (atomEntry e fromTs base it s) (atomEntry (recorder e) fromTs b it t)"
  by (cases "atomLink it") (simp_all add: atomEntry_def emitEntry_rel)

lemma relSum_cases:
  assumes "relSum R x y"
  obtains (err) a where "x = Inl a" "y = Inl a"
  | (ok) s t where "x = Inr s" "y = Inr t" "R s t"
  using assms by (cases x; cases y) auto

lemma atomEntries_rel:
  "refsRel e base A s t \<Longrightarrow>
   relSum (refsRel e base A) (atomEntries e fromTs base its s) (atomEntries (recorder e) fromTs b its t)"
proof (induction its arbitrary: s t)
  case Nil
  then show ?case by simp
next
  case (Cons it its)
  from atomEntry_rel[OF Cons.prems, of fromTs it b] show ?case
  proof (cases rule: relSum_cases)
    case (err a)
    then show ?thesis by simp
  next
    case (ok s' t')
    with Cons.IH[OF ok(3)] show ?thesis by simp
  qed
qed

lemma urlAlt_rel:
  "refsRel e base A s t \<Longrightarrow>
   relSum (refsRel e base A) (urlAlt e fromTs base ts l s) (urlAlt (recorder e) fromTs b ts l t)"
  by (cases "altRel l")
     (auto simp: urlAlt_def refsRel_def addResult_def split: option.splits)

lemma urlAlts_rel:
  "refsRel e base A s t \<Longrightarrow>
   relSum (refsRel e base A) (urlAlts e fromTs base ts ls s) (urlAlts (recorder e) fromTs b ts ls t)"
proof (induction ls arbitrary: s t)
  case Nil
  then show ?case by simp
next
  case (Cons l ls)
  from urlAlt_rel[OF Cons.prems, of fromTs ts l b] show ?case
  proof (cases rule: relSum_cases)
    case (err a)
    then show ?thesis by simp
  next
    case (ok s' t')
    with Cons.IH[OF ok(3)] show ?thesis by simp
  qed
qed

lemma urlEntry_rel:
  "refsRel e base A s t \<Longrightarrow>
   relSum (refsRel e base A) (urlEntry e fromTs base it s) (urlEntry (recorder e) fromTs b it t)"
  by (simp add: urlEntry_def urlAlts_rel emitUrl_rel)

lemma urlEntries_rel:
  "refsRel e base A s t \<Longrightarrow>
   relSum (refsRel e base A) (urlEntries e fromTs base its s) (urlEntries (recorder e) fromTs b its t)"
proof (induction its arbitrary: s t)
  case Nil
  then show ?case by simp
next
  case (Cons it its)
  from urlEntry_rel[OF Cons.prems, of fromTs it b] show ?case
  proof (cases rule: relSum_cases)
    case (err a)
    then show ?thesis by simp
  next
    case (ok s' t')
    with Cons.IH[OF ok(3)] show ?thesis by simp
  qed
qed

lemma genericNode_rel:
  "refsRel e base A s t \<Longrightarrow>
   refsRel e base A (genericNode e fromTs base scalars s) (genericNode (recorder e) fromTs b scalars t)"
  by (auto simp: genericNode_def emitUrl_rel split: prod.splits)

lemma genericWalk_rel:
  "refsRel e base A s t \<Longrightarrow>
   refsRel e base A (genericWalk e fromTs base stack s) (genericWalk (recorder e) fromTs b stack t)"
proof (induction e fromTs base stack s arbitrary: t rule: genericWalk.induct)
  case (1 e fromTs base st)
  then show ?case by simp
next
  case (2 e fromTs base node stack st)
  then show ?case by (simp add: genericNode_rel)
qed

lemma indexEntries_results:
  "results (indexEntries e base its s) = results s \<and> seen (indexEntries e base its s) = seen s"
proof -
  have "pushClosed e base (\<lambda>x. results x = results s \<and> seen x = seen s)"
    by (simp add: pushClosed_def)
  then show ?thesis by (rule indexEntries_pres) simp
qed

lemma indexEntries_rel:
  "refsRel e base A s t \<Longrightarrow>
   refsRel e base A (indexEntries e base its s) (indexEntries (recorder e) b its t)"
  by (simp add: refsRel_def indexEntries_results)

lemma processDoc_rel:
  "refsRel e base A s t \<Longrightarrow>
   relSum (refsRel e base A) (processDoc e fromTs base d s) (processDoc (recorder e) fromTs b d t)"
  by (cases "classify d")
     (simp_all add: processDoc_def indexEntries_rel urlEntries_rel rssEntries_rel atomEntries_rel
        rdfEntries_rel genericWalk_rel del: genericWalk.simps)

lemma set_map_filter: "set (List.map_filter f xs) = {u. \<exists>r\<in>set xs. f r = Some u}"
  by (induction xs) (auto simp: List.map_filter_simps split: option.splits)

lemma processDoc_yield:
  assumes "seen s = set (results s)" "processDoc e fromTs base d s = Inr s'"
  shows "seen s' = set (results s')
         \<and> set (results s') = set (results s)
              \<union> set (List.map_filter (\<lambda>r. resolveUrl e r base) (docRefs e fromTs d))"
proof -
  have "refsRel e base (set (results s)) s blank"
    using assms(1) by (simp add: refsRel_def blank_def)
  from processDoc_rel[OF this, of fromTs d "[]"] show ?thesis
  proof (cases rule: relSum_cases)
    case (err a)
    with assms(2) show ?thesis by simp
  next
    case (ok s1 t1)
    with assms(2) have "s1 = s'" by simp
    with ok show ?thesis by (simp add: refsRel_def docRefs_def set_map_filter)
  qed
qed

subsection \<open>One turn of the loop\<close>

lemma visit_unfold:
  "visit e fromTs c st =
     (if c = [] \<or> c \<in> visited st then Inr st
      else (case httpFetch e c of
              None \<Rightarrow> Inr (markVisited c st)
            | Some res \<Rightarrow>
                if \<not> resOk res then Inr (markVisited c st)
                else (case resBody res of
                        BodyError \<Rightarrow> Inl (BodyReadError, fetched (markVisited c st))
                      | ParseError \<Rightarrow> Inr (markVisited c st)
                      | Parsed d \<Rightarrow>
                          (case processDoc e fromTs (docBase res c) d (markVisited c st) of
                             Inl err \<Rightarrow> Inl (err, fetched (markVisited c st))
                           | Inr st2 \<Rightarrow> Inr st2))))"
  unfolding visit_def markVisited_def Let_def by (rule refl)



subsection \<open>The invariant\<close>







subsection \<open>Termination on a finite set of addresses\<close>



lemma visit_queue_skip:
  "c = [] \<or> c \<in> visited st \<Longrightarrow> visit e fromTs c st = Inr st"
  by (simp add: visit_unfold)


subsection \<open>The documents reached\<close>









subsection \<open>A site without end\<close>








subsection \<open>Finite graphs of documents\<close>







subsection \<open>The returned sequence\<close>





section \<open>The link of an Atom entry\<close>

lemma lowerOf_cases: "lowerOf v = Inl TypeError \<or> (\<exists>r. lowerOf v = Inr r)"
  by (cases v) auto

lemma atomRel_cases: "atomRel l = Inl TypeError \<or> (\<exists>r. atomRel l = Inr r)"
  unfolding atomRel_def by (rule lowerOf_cases)

lemma atomChoose_stops:
  "isAlternateLink l \<Longrightarrow> \<forall>p\<in>set pre. atomRel p \<noteq> Inl TypeError \<and> \<not> isAlternateLink p \<Longrightarrow>
   atomChoose c (pre @ l # post) = Inr (atomHref l)"
proof (induction pre arbitrary: c)
  case Nil
  then show ?case by (simp add: isAlternateLink_def)
next
  case (Cons p pre)
  obtain r where r: "atomRel p = Inr r"
    using Cons.prems(2) atomRel_cases[of p] by auto
  with Cons show ?case by (auto simp: isAlternateLink_def)
qed

lemma atomChoose_default:
  "\<forall>p\<in>set ls. atomRel p \<noteq> Inl TypeError \<and> \<not> isAlternateLink p \<Longrightarrow>
   atomChoose c ls =
     Inr (if truthy c then c
          else (case find (\<lambda>l. truthy (atomHref l)) ls of
                  Some l \<Rightarrow> atomHref l
                | None \<Rightarrow> if ls = [] then c else atomHref (last ls)))"
proof (induction ls arbitrary: c)
  case Nil
  then show ?case by simp
next
  case (Cons p ls)
  obtain r where r: "atomRel p = Inr r"
    using Cons.prems atomRel_cases[of p] by auto
  from Cons.prems have na: "\<not> (r = ''alternate'' \<and> truthy (atomHref p))"
    using r by (auto simp: isAlternateLink_def)
  have IH: "atomChoose c' ls =
     Inr (if truthy c' then c'
          else (case find (\<lambda>l. truthy (atomHref l)) ls of
                  Some l \<Rightarrow> atomHref l
                | None \<Rightarrow> if ls = [] then c' else atomHref (last ls)))" for c'
    using Cons.IH Cons.prems by simp
  show ?case
    using r na by (auto simp: IH split: option.splits)
qed

lemmas atom_eval =
  atomLink_def atomRel_def atomHref_def jsOr_def toLowerCase_def lowerChar_def isAlternateLink_def

text \<open>
  C8, as stated, fails. With the links \<open>[{rel:"self"}, {rel:"self", href:"A"}]\<close> the
  first link has no href, and the entry still resolves to \<open>A\<close>: the default is not the
  href of the first link but the first href met, and a later link that is not an
  alternate supplies it.
\<close>

theorem atomLink_default_counterexample:
  "atomHref (JObj [(''rel'', JStr ''self'')]) = JUndef
   \<and> atomLink (JObj [(''link'', JArr [JObj [(''rel'', JStr ''self'')],
                                       JObj [(''rel'', JStr ''self''), (''href'', JStr ''A'')]])])
       = Inr (JStr ''A'')"
  by (simp add: atom_eval)

text \<open>
  C8, amended. In the scan of an Atom entry's list of links, as long as every relation
  read is a string (anything else throws), the first link whose relation is
  \<open>alternate\<close> (the default when it has none) and that has an href decides: its href
  is selected and the scan stops, whatever follows. When no link is such an alternate,
  the selected href is the first href met in the list, the href of the first link when
  that link has one; without any href the entry has no link.
\<close>

theorem atomChoose_selection:
  "\<forall>p\<in>set pre. atomRel p \<noteq> Inl TypeError \<and> \<not> isAlternateLink p \<Longrightarrow>
     (isAlternateLink l \<longrightarrow> atomChoose JNull (pre @ l # post) = Inr (atomHref l))
     \<and> atomChoose JNull pre =
         Inr (case find (\<lambda>l. truthy (atomHref l)) pre of
                Some l \<Rightarrow> atomHref l
              | None \<Rightarrow> if pre = [] then JNull else atomHref (last pre))"
  using atomChoose_stops[of l pre JNull post] atomChoose_default[of pre JNull] by simp

theorem atomChoose_selection_witness:
  "atomLink (JObj [(''link'', JArr [JObj [(''rel'', JStr ''self''), (''href'', JStr ''A'')],
                                     JObj [(''rel'', JStr ''alternate''), (''href'', JStr ''B'')]])])
     = Inr (JStr ''B'')
   \<and> atomChoose JNull [JObj [(''rel'', JStr ''self''), (''href'', JStr ''A'')],
                        JObj [(''href'', JStr ''B'')],
                        JObj [(''rel'', JStr ''Alternate''), (''href'', JStr ''C'')]]
     = Inr (JStr ''B'')
   \<and> atomChoose JNull [JObj [(''rel'', JStr ''self''), (''href'', JStr ''A'')]] = Inr (JStr ''A'')"
proof -
  let ?a = "JObj [(''rel'', JStr ''self''), (''href'', JStr ''A'')]"
  let ?b = "JObj [(''href'', JStr ''B'')]"
  let ?b' = "JObj [(''rel'', JStr ''alternate''), (''href'', JStr ''B'')]"
  let ?c = "JObj [(''rel'', JStr ''Alternate''), (''href'', JStr ''C'')]"
  have pre: "\<forall>p\<in>set [?a]. atomRel p \<noteq> Inl TypeError \<and> \<not> isAlternateLink p"
    by (simp add: atom_eval)
  have b: "isAlternateLink ?b" "isAlternateLink ?b'" by (simp_all add: atom_eval)
  have hb: "atomHref ?b = JStr ''B''" "atomHref ?b' = JStr ''B''" "atomHref ?a = JStr ''A''"
    by (simp_all add: atom_eval)
  from atomChoose_selection[OF pre, of ?b "[?c]"] b hb
  have 1: "atomChoose JNull [?a, ?b, ?c] = Inr (JStr ''B'')"
    and 2: "atomChoose JNull [?a] = Inr (JStr ''A'')" by simp_all
  from atomChoose_selection[OF pre, of ?b' "[]"] b hb
  have "atomChoose JNull [?a, ?b'] = Inr (JStr ''B'')" by simp
  then have 3: "atomLink (JObj [(''link'', JArr [?a, ?b'])]) = Inr (JStr ''B'')"
    by (simp add: atomLink_def)
  from 1 2 3 show ?thesis by simp
qed

section \<open>URL set entries and their alternates\<close>


lemma addResult_results: "set (results st) \<subseteq> set (results (addResult u st))"
  by (auto simp: addResult_def)











lemmas url_eval =
  urlEntry_def urlInclude_def urlAltLinks_def urlAlt_def altRel_def altHref_def urlTs_def
  urlLastmod_def urlNewsTs_def urlVideoTs_def jsOr_def jsCoalesce_def toLowerCase_def
  lowerChar_def exampleEnv_def exampleResolve_def startsWith_def emitUrl_def addResult_def
  initState_def unzonedLike_def unzonedShape_def


section \<open>The inclusion predicate and the lower bound\<close>

lemma emitEntry_excluded: "\<not> includeByFrom ts fromTs \<Longrightarrow> emitEntry e fromTs base link ts st = st"
  by (simp add: emitEntry_def)

lemma includeByFrom_NaN: "\<not> isFinite ts \<Longrightarrow> \<not> includeByFrom ts (Some lb)"
  by simp

lemma atomEntry_excluded:
  "\<not> includeByFrom (atomTs (dateParse e) it) fromTs \<Longrightarrow>
   atomEntry e fromTs base it st = Inr st \<or> atomEntry e fromTs base it st = Inl TypeError"
proof (cases "atomLink it")
  case (Inl err)
  have "err = TypeError"
  proof -
    have "atomChoose c ls = Inl err' \<Longrightarrow> err' = TypeError" for c ls err'
    proof (induction ls arbitrary: c)
      case Nil
      then show ?case by simp
    next
      case (Cons l ls)
      then show ?case using atomRel_cases[of l] by (auto split: sum.splits if_splits)
    qed
    with Inl show ?thesis by (auto simp: atomLink_def Let_def split: if_splits)
  qed
  with Inl show ?thesis by (simp add: atomEntry_def)
next
  case (Inr linkVal)
  assume "\<not> includeByFrom (atomTs (dateParse e) it) fromTs"
  with Inr show ?thesis by (simp add: atomEntry_def emitEntry_excluded)
qed

lemma genericNode_excluded:
  assumes "\<forall>d. snd (scanScalars scalars (None, None)) = Some d
               \<longrightarrow> \<not> includeByFrom (toTs (dateParse e) (JStr d)) (Some lb)"
  shows "genericNode e (Some lb) base scalars st = st"
proof -
  obtain fu fd where f: "scanScalars scalars (None, None) = (fu, fd)" by (cases "scanScalars scalars (None, None)")
  show ?thesis
  proof (cases fd)
    case None
    with f show ?thesis by (simp add: genericNode_def)
  next
    case (Some d)
    with f assms have "\<not> includeByFrom (toTs (dateParse e) (JStr d)) (Some lb)" by simp
    with f Some show ?thesis by (simp add: genericNode_def del: toTs.simps includeByFrom.simps)
  qed
qed

text \<open>
  C2. The inclusion predicate is true whenever the lower bound is null; against a lower
  bound it is true exactly when the timestamp is finite and at least the bound (a finite
  bound that it reaches or, as a number, negative infinity). So a
  list of candidate fields that all normalise to NaN fails it against every bound, and
  an entry whose best timestamp is NaN is excluded whenever a lower bound is active: a
  URL set entry, an RSS item and an RDF item leave the state as it is, an Atom entry
  too (unless its links throw), and so does a node of the generic fallback whose date
  field, if it has one, normalises to NaN.
\<close>

theorem includeByFrom_policy:
  "includeByFrom ts None
   \<and> includeByFrom ts (Some lb)
       = (\<exists>t. ts = Fin t \<and> (lb = NegInf \<or> (\<exists>b. lb = Fin b \<and> b \<le> t)))
   \<and> ((\<forall>v\<in>set vals. \<not> isFinite (toTs dp v)) \<longrightarrow> \<not> includeByFrom (firstTs dp vals) (Some lb))
   \<and> (\<not> isFinite (urlTs (dateParse e) it) \<longrightarrow> urlEntry e (Some lb) base it st = Inr st)
   \<and> (\<not> isFinite (rssTs (dateParse e) it) \<longrightarrow> rssEntry e (Some lb) base it st = st)
   \<and> (\<not> isFinite (rdfTs (dateParse e) it) \<longrightarrow> rdfEntry e (Some lb) base it st = st)
   \<and> (\<not> isFinite (atomTs (dateParse e) it) \<longrightarrow>
        atomEntry e (Some lb) base it st = Inr st \<or> atomEntry e (Some lb) base it st = Inl TypeError)
   \<and> ((\<forall>d. snd (scanScalars scalars (None, None)) = Some d \<longrightarrow> \<not> isFinite (toTs (dateParse e) (JStr d)))
        \<longrightarrow> genericNode e (Some lb) base scalars st = st)"
proof -
  have 1: "includeByFrom ts (Some lb)
       = (\<exists>t. ts = Fin t \<and> (lb = NegInf \<or> (\<exists>b. lb = Fin b \<and> b \<le> t)))"
    by (rule includeByFrom_Some)
  have 2: "(\<forall>v\<in>set vals. \<not> isFinite (toTs dp v)) \<longrightarrow> \<not> includeByFrom (firstTs dp vals) (Some lb)"
    using firstTs_NaN[of vals dp] by auto
  have 3: "\<not> isFinite (urlTs (dateParse e) it) \<longrightarrow> urlEntry e (Some lb) base it st = Inr st"
    by (simp add: urlEntry_def urlInclude_def)
  have 4: "\<not> isFinite (rssTs (dateParse e) it) \<longrightarrow> rssEntry e (Some lb) base it st = st"
    by (simp add: rssEntry_def emitEntry_def)
  have 5: "\<not> isFinite (rdfTs (dateParse e) it) \<longrightarrow> rdfEntry e (Some lb) base it st = st"
    by (simp add: rdfEntry_def emitEntry_def)
  have 6: "\<not> isFinite (atomTs (dateParse e) it) \<longrightarrow>
        atomEntry e (Some lb) base it st = Inr st \<or> atomEntry e (Some lb) base it st = Inl TypeError"
    using atomEntry_excluded[of e it "Some lb" base st] by simp
  have 7: "(\<forall>d. snd (scanScalars scalars (None, None)) = Some d \<longrightarrow> \<not> isFinite (toTs (dateParse e) (JStr d)))
        \<longrightarrow> genericNode e (Some lb) base scalars st = st"
    using genericNode_excluded[of scalars e lb base st] by simp
  from 1 2 3 4 5 6 7 show ?thesis by simp
qed


lemmas entry_eval =
  url_eval rssEntry_def rssLink_def rssTs_def emitEntry_def genericNode_def
  urlKeyLike_def dateKeyLike_def keyLike_def endsWith_def urlLike_def dateValueLike_def
  monthDayYearLike_def isLetter_def isLowerAZ_def isUpperAZ_def pathChar_def

theorem includeByFrom_policy_witness:
  "includeByFrom (Fin 1672531200000) (Some (Fin 1640995200000))
   \<and> \<not> includeByFrom (Fin 1672531200000) (Some (Fin 1685577600000))
   \<and> \<not> isFinite (toTs exampleParse (JStr ''soon''))
   \<and> \<not> includeByFrom (firstTs exampleParse [JStr ''soon'', JNull]) (Some (Fin 0))
   \<and> urlEntry exampleEnv (Some (Fin 0)) ''http://h/u1''
        (JObj [(''loc'', JStr ''/p''), (''lastmod'', JStr ''soon'')]) (initState ''http://h/u1'')
      = Inr (initState ''http://h/u1'')
   \<and> rssEntry exampleEnv (Some (Fin 0)) ''http://h/u1''
        (JObj [(''link'', JStr ''/p''), (''pubDate'', JStr ''soon'')]) (initState ''http://h/u1'')
      = initState ''http://h/u1''
   \<and> genericNode exampleEnv (Some (Fin 0)) ''http://h/u1''
        [(''loc'', JStr ''/p''), (''date'', JStr ''soon'')] (initState ''http://h/u1'')
      = initState ''http://h/u1''"
proof -
  let ?vals = "[JStr ''soon'', JNull]"
  let ?u = "JObj [(''loc'', JStr ''/p''), (''lastmod'', JStr ''soon'')]"
  let ?r = "JObj [(''link'', JStr ''/p''), (''pubDate'', JStr ''soon'')]"
  let ?sc = "[(''loc'', JStr ''/p''), (''date'', JStr ''soon'')]"
  have soon: "\<not> isFinite (toTs exampleParse (JStr ''soon''))"
    by (simp add: toTs_eval unzonedLike_def unzonedShape_def)
  then have vals: "\<forall>v\<in>set ?vals. \<not> isFinite (toTs exampleParse v)" by simp
  have u: "\<not> isFinite (urlTs (dateParse exampleEnv) ?u)"
    by (simp add: url_eval toTs_eval)
  have r: "\<not> isFinite (rssTs (dateParse exampleEnv) ?r)"
    by (simp add: entry_eval toTs_eval)
  have sc: "snd (scanScalars ?sc (None, None)) = Some ''soon''"
    by (simp add: entry_eval toTs_eval trim_def isSpace_def)
  have g: "\<forall>d. snd (scanScalars ?sc (None, None)) = Some d
             \<longrightarrow> \<not> isFinite (toTs (dateParse exampleEnv) (JStr d))"
    unfolding sc using soon by (simp add: exampleEnv_def del: toTs.simps)
  have a: "includeByFrom (Fin 1672531200000) (Some (Fin 1640995200000))"
    using includeByFrom_policy[where ts = "Fin 1672531200000" and lb = "Fin 1640995200000"
        and vals = "[]" and e = exampleEnv and it = JNull and scalars = "[]"] by simp
  have b: "\<not> includeByFrom (Fin 1672531200000) (Some (Fin 1685577600000))"
    using includeByFrom_policy[where ts = "Fin 1672531200000" and lb = "Fin 1685577600000"
        and vals = "[]" and e = exampleEnv and it = JNull and scalars = "[]"] by simp
  from includeByFrom_policy[where lb = "Fin 0" and vals = ?vals and dp = exampleParse
      and e = exampleEnv and it = ?u and scalars = ?sc and base = "''http://h/u1''"
      and st = "initState ''http://h/u1''"] vals u g
  have c: "\<not> includeByFrom (firstTs exampleParse ?vals) (Some (Fin 0))"
    and d: "urlEntry exampleEnv (Some (Fin 0)) ''http://h/u1'' ?u (initState ''http://h/u1'')
              = Inr (initState ''http://h/u1'')"
    and f: "genericNode exampleEnv (Some (Fin 0)) ''http://h/u1'' ?sc (initState ''http://h/u1'')
              = initState ''http://h/u1''"
    by blast+
  from includeByFrom_policy[where lb = "Fin 0" and vals = ?vals and dp = exampleParse
      and e = exampleEnv and it = ?r and scalars = ?sc and base = "''http://h/u1''"
      and st = "initState ''http://h/u1''"] r
  have h: "rssEntry exampleEnv (Some (Fin 0)) ''http://h/u1'' ?r (initState ''http://h/u1'')
              = initState ''http://h/u1''"
    by blast
  from a b soon c d f h show ?thesis by blast
qed

section \<open>Properties of the classifier\<close>

lemma processDoc_dispatch:
  "processDoc e fromTs base d st =
     (if truthy (getProp (getProp d ''sitemapindex'') ''sitemap'')
        then Inr (indexEntries e base (asArray (getProp (getProp d ''sitemapindex'') ''sitemap'')) st)
      else if truthy (getProp (getProp d ''urlset'') ''url'')
        then urlEntries e fromTs base (asArray (getProp (getProp d ''urlset'') ''url'')) st
      else if truthy (getProp (getProp d ''rss'') ''channel'')
        then Inr (rssEntries e fromTs base
                    (asArrayOrEmpty (getProp (getProp (getProp d ''rss'') ''channel'') ''item'')) st)
      else if truthy (getProp d ''feed'')
        then atomEntries e fromTs base (asArrayOrEmpty (getProp (getProp d ''feed'') ''entry'')) st
      else if truthy (getProp d ''RDF'')
        then Inr (rdfEntries e fromTs base (asArrayOrEmpty (getProp (getProp d ''RDF'') ''item'')) st)
      else if truthy (getProp d ''rdf'')
        then Inr (rdfEntries e fromTs base (asArrayOrEmpty (getProp (getProp d ''rdf'') ''item'')) st)
      else if truthy (getProp d ''rdf:RDF'')
        then Inr (rdfEntries e fromTs base (asArrayOrEmpty (getProp (getProp d ''rdf:RDF'') ''item'')) st)
      else Inr (genericWalk e fromTs base [d] st))"
  by (simp add: processDoc_def classify_def rdfRoot_def jsOr_def del: genericWalk.simps)

lemma processDoc_index_results:
  assumes "truthy (getProp (getProp d ''sitemapindex'') ''sitemap'')"
  shows "\<exists>st'. processDoc e fromTs base d st = Inr st' \<and> results st' = results st \<and> seen st' = seen st"
proof -
  let ?P = "\<lambda>s. results s = results st \<and> seen s = seen st"
  have "pushClosed e base ?P" by (simp add: pushClosed_def)
  then have "?P (indexEntries e base (asArray (getProp (getProp d ''sitemapindex'') ''sitemap'')) st)"
    by (rule indexEntries_pres) simp
  with assms show ?thesis by (simp add: processDoc_dispatch)
qed

lemma processDoc_other_queue:
  assumes "\<not> truthy (getProp (getProp d ''sitemapindex'') ''sitemap'')"
    "processDoc e fromTs base d st = Inr st'"
  shows "queue st' = queue st"
proof -
  from assms(1) have c: "classify d \<noteq> SitemapIndex" by (simp add: classify_def)
  have "emitClosed e base (\<lambda>s. queue s = queue st)"
    by (simp add: emitClosed_def addResult_def)
  from processDoc_emit_pres[OF c this _ assms(2)] show ?thesis by simp
qed

text \<open>
  C7, as stated, fails. A document whose \<open>feed\<close> key is present with an empty value
  (an empty \<open>feed\<close> element parses to the empty string) is not routed to the Atom
  extractor, and a document whose \<open>urlset\<close> holds no \<open>url\<close> is not routed to the URL
  set extractor: both go to the generic fallback.
\<close>

theorem classify_presence_counterexample:
  "map_of [(''feed'', JStr [])] ''feed'' = Some (JStr [])
   \<and> classify (JObj [(''feed'', JStr [])]) = Generic
   \<and> map_of [(''urlset'', JObj [(''lastmod'', JStr ''2023-01-01'')])] ''urlset''
         = Some (JObj [(''lastmod'', JStr ''2023-01-01'')])
   \<and> classify (JObj [(''urlset'', JObj [(''lastmod'', JStr ''2023-01-01'')])]) = Generic"
  by (simp add: classify_def rdfRoot_def jsOr_def)

text \<open>
  C7, amended. The loop body selects exactly one extractor for a document, by tests in
  a fixed order, the first that succeeds deciding: the value at \<open>sitemapindex.sitemap\<close>
  (the index extractor runs on it), at \<open>urlset.url\<close> (the URL set extractor), at
  \<open>rss.channel\<close> (the RSS extractor, on the channel's items), at \<open>feed\<close> (the Atom
  extractor, on the feed's entries), and the first truthy of \<open>RDF\<close>, \<open>rdf\<close>,
  \<open>rdf:RDF\<close> (the RDF extractor, on its items); the generic walk runs on the whole
  document when none succeeds. Each test is a test of truthiness of the value read, not
  of the presence of the key, and nothing else of the document is inspected. One branch
  runs: a document taken for a sitemap index emits no URL, whatever else it holds, and
  a document taken for anything else enqueues nothing.
\<close>

theorem classify_priority:
  "(classify d = SitemapIndex) = truthy (getProp (getProp d ''sitemapindex'') ''sitemap'')
   \<and> (classify d = UrlSet) =
        (\<not> truthy (getProp (getProp d ''sitemapindex'') ''sitemap'')
         \<and> truthy (getProp (getProp d ''urlset'') ''url''))
   \<and> (classify d = Rss) =
        (\<not> truthy (getProp (getProp d ''sitemapindex'') ''sitemap'')
         \<and> \<not> truthy (getProp (getProp d ''urlset'') ''url'')
         \<and> truthy (getProp (getProp d ''rss'') ''channel''))
   \<and> (classify d = Atom) =
        (\<not> truthy (getProp (getProp d ''sitemapindex'') ''sitemap'')
         \<and> \<not> truthy (getProp (getProp d ''urlset'') ''url'')
         \<and> \<not> truthy (getProp (getProp d ''rss'') ''channel'')
         \<and> truthy (getProp d ''feed''))
   \<and> (classify d = Rdf) =
        (\<not> truthy (getProp (getProp d ''sitemapindex'') ''sitemap'')
         \<and> \<not> truthy (getProp (getProp d ''urlset'') ''url'')
         \<and> \<not> truthy (getProp (getProp d ''rss'') ''channel'')
         \<and> \<not> truthy (getProp d ''feed'')
         \<and> (truthy (getProp d ''RDF'') \<or> truthy (getProp d ''rdf'') \<or> truthy (getProp d ''rdf:RDF'')))
   \<and> (classify d = Generic) =
        (\<not> truthy (getProp (getProp d ''sitemapindex'') ''sitemap'')
         \<and> \<not> truthy (getProp (getProp d ''urlset'') ''url'')
         \<and> \<not> truthy (getProp (getProp d ''rss'') ''channel'')
         \<and> \<not> truthy (getProp d ''feed'')
         \<and> \<not> truthy (getProp d ''RDF'') \<and> \<not> truthy (getProp d ''rdf'')
         \<and> \<not> truthy (getProp d ''rdf:RDF''))
   \<and> processDoc e fromTs base d st =
       (if truthy (getProp (getProp d ''sitemapindex'') ''sitemap'')
          then Inr (indexEntries e base (asArray (getProp (getProp d ''sitemapindex'') ''sitemap'')) st)
        else if truthy (getProp (getProp d ''urlset'') ''url'')
          then urlEntries e fromTs base (asArray (getProp (getProp d ''urlset'') ''url'')) st
        else if truthy (getProp (getProp d ''rss'') ''channel'')
          then Inr (rssEntries e fromTs base
                      (asArrayOrEmpty (getProp (getProp (getProp d ''rss'') ''channel'') ''item'')) st)
        else if truthy (getProp d ''feed'')
          then atomEntries e fromTs base (asArrayOrEmpty (getProp (getProp d ''feed'') ''entry'')) st
        else if truthy (getProp d ''RDF'')
          then Inr (rdfEntries e fromTs base (asArrayOrEmpty (getProp (getProp d ''RDF'') ''item'')) st)
        else if truthy (getProp d ''rdf'')
          then Inr (rdfEntries e fromTs base (asArrayOrEmpty (getProp (getProp d ''rdf'') ''item'')) st)
        else if truthy (getProp d ''rdf:RDF'')
          then Inr (rdfEntries e fromTs base (asArrayOrEmpty (getProp (getProp d ''rdf:RDF'') ''item'')) st)
        else Inr (genericWalk e fromTs base [d] st))
   \<and> (truthy (getProp (getProp d ''sitemapindex'') ''sitemap'') \<longrightarrow>
        (\<exists>st'. processDoc e fromTs base d st = Inr st' \<and> results st' = results st \<and> seen st' = seen st))
   \<and> (\<not> truthy (getProp (getProp d ''sitemapindex'') ''sitemap'') \<longrightarrow>
        (\<forall>st'. processDoc e fromTs base d st = Inr st' \<longrightarrow> queue st' = queue st))"
proof -
  have a: "(classify d = SitemapIndex) = truthy (getProp (getProp d ''sitemapindex'') ''sitemap'')
   \<and> (classify d = UrlSet) =
        (\<not> truthy (getProp (getProp d ''sitemapindex'') ''sitemap'')
         \<and> truthy (getProp (getProp d ''urlset'') ''url''))
   \<and> (classify d = Rss) =
        (\<not> truthy (getProp (getProp d ''sitemapindex'') ''sitemap'')
         \<and> \<not> truthy (getProp (getProp d ''urlset'') ''url'')
         \<and> truthy (getProp (getProp d ''rss'') ''channel''))
   \<and> (classify d = Atom) =
        (\<not> truthy (getProp (getProp d ''sitemapindex'') ''sitemap'')
         \<and> \<not> truthy (getProp (getProp d ''urlset'') ''url'')
         \<and> \<not> truthy (getProp (getProp d ''rss'') ''channel'')
         \<and> truthy (getProp d ''feed''))
   \<and> (classify d = Rdf) =
        (\<not> truthy (getProp (getProp d ''sitemapindex'') ''sitemap'')
         \<and> \<not> truthy (getProp (getProp d ''urlset'') ''url'')
         \<and> \<not> truthy (getProp (getProp d ''rss'') ''channel'')
         \<and> \<not> truthy (getProp d ''feed'')
         \<and> (truthy (getProp d ''RDF'') \<or> truthy (getProp d ''rdf'') \<or> truthy (getProp d ''rdf:RDF'')))
   \<and> (classify d = Generic) =
        (\<not> truthy (getProp (getProp d ''sitemapindex'') ''sitemap'')
         \<and> \<not> truthy (getProp (getProp d ''urlset'') ''url'')
         \<and> \<not> truthy (getProp (getProp d ''rss'') ''channel'')
         \<and> \<not> truthy (getProp d ''feed'')
         \<and> \<not> truthy (getProp d ''RDF'') \<and> \<not> truthy (getProp d ''rdf'')
         \<and> \<not> truthy (getProp d ''rdf:RDF''))"
    by (simp add: classify_def rdfRoot_def jsOr_def)
  note b = processDoc_dispatch [of e fromTs base d st]
  have c: "truthy (getProp (getProp d ''sitemapindex'') ''sitemap'') \<longrightarrow>
        (\<exists>st'. processDoc e fromTs base d st = Inr st' \<and> results st' = results st \<and> seen st' = seen st)"
    using processDoc_index_results by blast
  have f: "\<not> truthy (getProp (getProp d ''sitemapindex'') ''sitemap'') \<longrightarrow>
        (\<forall>st'. processDoc e fromTs base d st = Inr st' \<longrightarrow> queue st' = queue st)"
    using processDoc_other_queue by blast
  from a b c f show ?thesis by (simp only: simp_thms)
qed

lemmas feed_eval =
  entry_eval rdfEntry_def rdfLink_def rdfTs_def atomEntry_def atomLink_def atomTs_def
  atomHref_def asArrayOrEmpty_def indexEntry_def indexLoc_def jsAnd_def

theorem classify_priority_witness:
  "processDoc exampleEnv None ''http://h/a''
     (JObj [(''sitemapindex'', JObj [(''sitemap'', JObj [(''loc'', JStr ''/s2'')])]),
            (''urlset'', JObj [(''url'', JObj [(''loc'', JStr ''/p'')])])])
     (initState ''http://h/a'')
   = Inr ((initState ''http://h/a'')\<lparr>queue := [''http://h/s2'', ''http://h/a'']\<rparr>)
   \<and> processDoc exampleEnv None ''http://h/a''
     (JObj [(''urlset'', JObj [(''url'', JObj [(''loc'', JStr ''/p'')])]),
            (''rss'', JObj [(''channel'', JObj [(''item'', JObj [(''link'', JStr ''/r'')])])])])
     (initState ''http://h/a'')
   = Inr ((initState ''http://h/a'')\<lparr>results := [''http://h/p''], seen := {''http://h/p''},
            emitted := [''http://h/p'']\<rparr>)
   \<and> processDoc exampleEnv None ''http://h/a''
     (JObj [(''feed'', JObj [(''entry'', JObj [(''link'', JStr ''/f'')])]),
            (''rss'', JObj [(''channel'', JObj [(''item'', JObj [(''link'', JStr ''/r'')])])])])
     (initState ''http://h/a'')
   = Inr ((initState ''http://h/a'')\<lparr>results := [''http://h/r''], seen := {''http://h/r''},
            emitted := [''http://h/r'']\<rparr>)
   \<and> processDoc exampleEnv None ''http://h/a''
     (JObj [(''rdf'', JObj [(''item'', JObj [(''rdf:about'', JStr ''/d'')])]),
            (''feed'', JObj [(''entry'', JObj [(''link'', JStr ''/f'')])])])
     (initState ''http://h/a'')
   = Inr ((initState ''http://h/a'')\<lparr>results := [''http://h/f''], seen := {''http://h/f''},
            emitted := [''http://h/f'']\<rparr>)
   \<and> processDoc exampleEnv None ''http://h/a''
     (JObj [(''rdf'', JObj [(''item'', JObj [(''rdf:about'', JStr ''/d'')])]),
            (''page'', JObj [(''loc'', JStr ''/g'')])])
     (initState ''http://h/a'')
   = Inr ((initState ''http://h/a'')\<lparr>results := [''http://h/d''], seen := {''http://h/d''},
            emitted := [''http://h/d'']\<rparr>)
   \<and> processDoc exampleEnv None ''http://h/a''
     (JObj [(''urlset'', JStr []), (''page'', JObj [(''loc'', JStr ''/g'')])])
     (initState ''http://h/a'')
   = Inr ((initState ''http://h/a'')\<lparr>results := [''http://h/g''], seen := {''http://h/g''},
            emitted := [''http://h/g'']\<rparr>)"
proof -
  let ?s = "initState ''http://h/a''"
  let ?d1 = "JObj [(''sitemapindex'', JObj [(''sitemap'', JObj [(''loc'', JStr ''/s2'')])]),
            (''urlset'', JObj [(''url'', JObj [(''loc'', JStr ''/p'')])])]"
  let ?d2 = "JObj [(''urlset'', JObj [(''url'', JObj [(''loc'', JStr ''/p'')])]),
            (''rss'', JObj [(''channel'', JObj [(''item'', JObj [(''link'', JStr ''/r'')])])])]"
  let ?d3 = "JObj [(''feed'', JObj [(''entry'', JObj [(''link'', JStr ''/f'')])]),
            (''rss'', JObj [(''channel'', JObj [(''item'', JObj [(''link'', JStr ''/r'')])])])]"
  let ?d4 = "JObj [(''rdf'', JObj [(''item'', JObj [(''rdf:about'', JStr ''/d'')])]),
            (''feed'', JObj [(''entry'', JObj [(''link'', JStr ''/f'')])])]"
  let ?d5 = "JObj [(''rdf'', JObj [(''item'', JObj [(''rdf:about'', JStr ''/d'')])]),
            (''page'', JObj [(''loc'', JStr ''/g'')])]"
  let ?d6 = "JObj [(''urlset'', JStr []), (''page'', JObj [(''loc'', JStr ''/g'')])]"
  have 1: "processDoc exampleEnv None ''http://h/a'' ?d1 ?s
             = Inr (?s\<lparr>queue := [''http://h/s2'', ''http://h/a'']\<rparr>)"
    using classify_priority [of ?d1 exampleEnv None "''http://h/a''" ?s]
    by (simp add: feed_eval trim_def isSpace_def)
  have 2: "processDoc exampleEnv None ''http://h/a'' ?d2 ?s
             = Inr (?s\<lparr>results := [''http://h/p''], seen := {''http://h/p''},
                       emitted := [''http://h/p'']\<rparr>)"
    using classify_priority [of ?d2 exampleEnv None "''http://h/a''" ?s]
    by (simp add: feed_eval trim_def isSpace_def)
  have 3: "processDoc exampleEnv None ''http://h/a'' ?d3 ?s
             = Inr (?s\<lparr>results := [''http://h/r''], seen := {''http://h/r''},
                       emitted := [''http://h/r'']\<rparr>)"
    using classify_priority [of ?d3 exampleEnv None "''http://h/a''" ?s]
    by (simp add: feed_eval trim_def isSpace_def)
  have 4: "processDoc exampleEnv None ''http://h/a'' ?d4 ?s
             = Inr (?s\<lparr>results := [''http://h/f''], seen := {''http://h/f''},
                       emitted := [''http://h/f'']\<rparr>)"
    using classify_priority [of ?d4 exampleEnv None "''http://h/a''" ?s]
    by (simp add: feed_eval trim_def isSpace_def)
  have 5: "processDoc exampleEnv None ''http://h/a'' ?d5 ?s
             = Inr (?s\<lparr>results := [''http://h/d''], seen := {''http://h/d''},
                       emitted := [''http://h/d'']\<rparr>)"
    using classify_priority [of ?d5 exampleEnv None "''http://h/a''" ?s]
    by (simp add: feed_eval trim_def isSpace_def)
  have 6: "processDoc exampleEnv None ''http://h/a'' ?d6 ?s
             = Inr (?s\<lparr>results := [''http://h/g''], seen := {''http://h/g''},
                       emitted := [''http://h/g'']\<rparr>)"
    using classify_priority [of ?d6 exampleEnv None "''http://h/a''" ?s]
    by (simp add: feed_eval trim_def isSpace_def isNested_def Let_def epochLike_def basicDateLike_def)
  from 1 2 3 4 5 6 show ?thesis by (simp only: simp_thms)
qed

section \<open>The lower bound of a call\<close>


subsection \<open>A traversal without lower bound\<close>





















end
